theory Spec2Isabelle
  imports Main "HOL-Library.Char_ord" "HOL-Library.List_Lexorder"
begin

section \<open>Configuration trees, paths and diff records\<close>

text \<open>
  A configuration tree is what the YAML decoder hands to the pre-flight phase: in
  \<^verbatim>\<open>preflight.go\<close> both \<^verbatim>\<open>storedCfg\<close> and \<^verbatim>\<open>newCfg\<close> have the Go type
  \<^verbatim>\<open>map[string]any\<close>, whose values nest mappings, sequences and scalars.
  A mapping is kept as the list of its entries; the order of the list stands for the
  order in which one run of the program happens to enumerate the mapping (Go does not
  fix it), and a key is looked up with \<^const>\<open>map_of\<close>.
\<close>

datatype val =
    VNull
  | VBool bool
  | VNum int
  | VStr string
  | VSeq "val list"
  | VMap "(string \<times> val) list"

datatype segment = Key string | Index nat

type_synonym path = "segment list"

datatype kind = Added | Removed | Changed

record DiffRecord =
  Path :: path
  OldValue :: "val option"
  NewValue :: "val option"
  DiffKind :: kind

record ViolationError =
  VPath :: path
  VOld :: "val option"
  VNew :: "val option"

text \<open>
  Errors are values. \<open>ErrorString\<close> is an error that carries only its message
  (\<^verbatim>\<open>errors.New\<close>, or the error of an external tool), \<open>Wrapped\<close> is
  \<^verbatim>\<open>fmt.Errorf("<message>: %w", err)\<close>, \<open>ErrImmutable\<close> is
  \<^verbatim>\<open>fmt.Errorf("%w: %s", errImmutable, errs)\<close> of \<^verbatim>\<open>CheckStateDiffs\<close>, and
  \<open>StructuralError\<close> is the diff engine's refusal of a root that is no mapping.
\<close>

datatype error =
    ErrorString string
  | Wrapped string error
  | ErrImmutable "ViolationError list"
  | StructuralError

section \<open>The diff engine\<close>

definition added :: "path \<Rightarrow> val \<Rightarrow> DiffRecord" where
  "added p y = \<lparr>Path = p, OldValue = None, NewValue = Some y, DiffKind = Added\<rparr>"

definition removed :: "path \<Rightarrow> val \<Rightarrow> DiffRecord" where
  "removed p x = \<lparr>Path = p, OldValue = Some x, NewValue = None, DiffKind = Removed\<rparr>"

definition changed :: "path \<Rightarrow> val \<Rightarrow> val \<Rightarrow> DiffRecord" where
  "changed p x y = \<lparr>Path = p, OldValue = Some x, NewValue = Some y, DiffKind = Changed\<rparr>"

text \<open>
  The keys of both sides, each once, in lexicographic order: the stable key order the
  engine walks a mapping node in.
\<close>

definition union_keys :: "(string \<times> val) list \<Rightarrow> (string \<times> val) list \<Rightarrow> string list" where
  "union_keys a b = sort (remdups (map fst a @ map fst b))"

lemma size_map_of_val:
  "map_of a k = Some x \<Longrightarrow> size x < Suc (size_list (size_prod (\<lambda>_. 0) size) a)"
  by (induction a) (auto split: if_splits)

lemma size_nth_val: "i < length xs \<Longrightarrow> size (xs ! i) < Suc (size_list size xs)"
proof (induction xs arbitrary: i)
  case Nil
  then show ?case by simp
next
  case (Cons a xs)
  show ?case
  proof (cases i)
    case 0
    then show ?thesis by simp
  next
    case (Suc j)
    with Cons.prems have "j < length xs" by simp
    from Cons.IH [OF this] Suc show ?thesis by simp
  qed
qed

text \<open>
  Modelled from the spec: the package \<^verbatim>\<open>internal/diff\<close> (\<^verbatim>\<open>NewBaseChecker\<close>,
  \<^verbatim>\<open>GenerateDiff\<close>, \<^verbatim>\<open>AssertImmutableViolations\<close>) is imported by
  \<^verbatim>\<open>preflight.go\<close> and is not among the sources. \<open>diff_val\<close> is the lockstep
  traversal of section 4.1 at the node reached by path \<open>p\<close>:
  \<^item> two mappings: the keys of both sides are united and walked in lexicographic order;
    a key of one side only gives one Removed or Added record for the whole subtree, a
    key of both sides is compared recursively;
  \<^item> two sequences: index \<open>i\<close> of the stored side against index \<open>i\<close> of the incoming
    side, then the trailing elements of the longer side as Removed or Added;
  \<^item> anything else is a leaf: a Changed record with both values when they differ, and
    nothing when they are equal.
\<close>

function (sequential) diff_val :: "path \<Rightarrow> val \<Rightarrow> val \<Rightarrow> DiffRecord list" where
  "diff_val p (VMap a) (VMap b) =
     concat (map (\<lambda>k. case map_of a k of
                None \<Rightarrow> (case map_of b k of
                           None \<Rightarrow> []
                         | Some y \<Rightarrow> [added (p @ [Key k]) y])
              | Some x \<Rightarrow> (case map_of b k of
                             None \<Rightarrow> [removed (p @ [Key k]) x]
                           | Some y \<Rightarrow> diff_val (p @ [Key k]) x y))
            (union_keys a b))"
| "diff_val p (VSeq xs) (VSeq ys) =
     concat (map (\<lambda>i. diff_val (p @ [Index i]) (xs ! i) (ys ! i))
                 [0..<min (length xs) (length ys)])
     @ map (\<lambda>i. removed (p @ [Index i]) (xs ! i)) [length ys..<length xs]
     @ map (\<lambda>i. added (p @ [Index i]) (ys ! i)) [length xs..<length ys]"
| "diff_val p x y = (if x = y then [] else [changed p x y])"
  by pat_completeness auto
termination
  by (relation "measure (\<lambda>(p, x, y). size x)")
     (auto simp: size_map_of_val size_nth_val)

text \<open>
  Modelled from the spec: \<^verbatim>\<open>GenerateDiff(stored, incoming)\<close> of section 4.1. It
  fails with the structural error when a top-level input is not a mapping, and is the
  traversal from the empty path otherwise.
\<close>

definition GenerateDiff :: "val \<Rightarrow> val \<Rightarrow> error + DiffRecord list" where
  "GenerateDiff stored incoming =
     (case stored of
        VMap a \<Rightarrow> (case incoming of
                     VMap b \<Rightarrow> Inr (diff_val [] stored incoming)
                   | _ \<Rightarrow> Inl StructuralError)
      | _ \<Rightarrow> Inl StructuralError)"

section \<open>Two runs on the same trees\<close>

text \<open>
  Go enumerates a mapping in an order that changes from run to run. Two values are the
  same tree when they differ at most in the order of the entries of their mappings:
  the same keys with the same subtrees under them, sequences equal position by position,
  scalars equal. Two diff records are the same when they have the same path and kind and
  their values are the same trees.
\<close>

function (sequential) same_tree :: "val \<Rightarrow> val \<Rightarrow> bool" where
  "same_tree (VMap a) (VMap b) =
     (set (map fst a) = set (map fst b)
      \<and> list_all (\<lambda>k. case map_of a k of
                        None \<Rightarrow> False
                      | Some x \<Rightarrow> (case map_of b k of
                                     None \<Rightarrow> False
                                   | Some y \<Rightarrow> same_tree x y))
                 (map fst a))"
| "same_tree (VSeq xs) (VSeq ys) =
     (length xs = length ys \<and> list_all (\<lambda>i. same_tree (xs ! i) (ys ! i)) [0..<length xs])"
| "same_tree x y = (x = y)"
  by pat_completeness auto
termination
  by (relation "measure (\<lambda>(x, y). size x)")
     (auto simp: size_map_of_val size_nth_val)

definition same_record :: "DiffRecord \<Rightarrow> DiffRecord \<Rightarrow> bool" where
  "same_record d e =
     (Path d = Path e \<and> DiffKind d = DiffKind e
      \<and> rel_option same_tree (OldValue d) (OldValue e)
      \<and> rel_option same_tree (NewValue d) (NewValue e))"

text \<open>
  The order of paths: segment by segment from the root, keys in lexicographic order and
  indices in numeric order, a path before its descendants.
\<close>

fun segment_less :: "segment \<Rightarrow> segment \<Rightarrow> bool" where
  "segment_less (Key a) (Key b) = (a < b)"
| "segment_less (Index i) (Index j) = (i < j)"
| "segment_less (Index i) (Key b) = True"
| "segment_less (Key a) (Index j) = False"

fun path_less :: "path \<Rightarrow> path \<Rightarrow> bool" where
  "path_less [] [] = False"
| "path_less [] (t # q) = True"
| "path_less (s # p) [] = False"
| "path_less (s # p) (t # q) = (segment_less s t \<or> (s = t \<and> path_less p q))"

section \<open>The immutability checker\<close>

text \<open>
  Modelled from the spec: the path patterns of section 3 and 4.2. A pattern is a
  sequence of segments; a key or a literal index matches itself, and the wildcard
  segment matches any index.
\<close>

datatype pattern_segment = PKey string | PIndex nat | PAnyIndex

type_synonym pattern = "pattern_segment list"

fun segment_matches :: "pattern_segment \<Rightarrow> segment \<Rightarrow> bool" where
  "segment_matches (PKey k) (Key k') = (k = k')"
| "segment_matches (PIndex i) (Index j) = (i = j)"
| "segment_matches PAnyIndex (Index j) = True"
| "segment_matches _ _ = False"

text \<open>
  Modelled from the spec: the matcher of section 4.2, walking the pattern and the
  path together from the root. The pattern matches when it is used up before a segment
  disagrees.
\<close>

fun pattern_matches :: "pattern \<Rightarrow> path \<Rightarrow> bool" where
  "pattern_matches [] p = True"
| "pattern_matches (s # ss) [] = False"
| "pattern_matches (s # ss) (x # xs) = (segment_matches s x \<and> pattern_matches ss xs)"

definition violation_of :: "DiffRecord \<Rightarrow> ViolationError" where
  "violation_of d = \<lparr>VPath = Path d, VOld = OldValue d, VNew = NewValue d\<rparr>"

text \<open>
  Modelled from the spec: \<^verbatim>\<open>AssertImmutableViolations(diffs, immutablePaths)\<close> of
  section 4.2. Every diff record is matched against every pattern, each match gives one
  violation, and nothing stops the loop early.
\<close>

fun AssertImmutableViolations :: "DiffRecord list \<Rightarrow> pattern list \<Rightarrow> ViolationError list" where
  "AssertImmutableViolations [] immutablePaths = []"
| "AssertImmutableViolations (d # diffs) immutablePaths =
     map (\<lambda>pat. violation_of d) (filter (\<lambda>pat. pattern_matches pat (Path d)) immutablePaths)
     @ AssertImmutableViolations diffs immutablePaths"

section \<open>The rule source\<close>

text \<open>
  Modelled from the spec: the package \<^verbatim>\<open>internal/apis/kfd/v1alpha2/eks/rules\<close> is
  imported by \<^verbatim>\<open>preflight.go\<close> and is not among the sources. The immutable rule set
  of section 3 maps a category name to its patterns; the rule source of section 4.3 holds
  the rule set that was loaded when it was built.
\<close>

record RuleSource =
  Immutables :: "(string \<times> pattern list) list"

text \<open>
  Modelled from the spec: \<^verbatim>\<open>GetImmutables(category)\<close> of section 4.3, a lookup with
  the empty set for a category the rule set does not declare. The call site
  (\<^verbatim>\<open>preflight.go\<close>, lines 220 to 222) passes the single result on as an argument, so
  the operation has no error result.
\<close>

definition GetImmutables :: "RuleSource \<Rightarrow> string \<Rightarrow> pattern list" where
  "GetImmutables r category =
     (case map_of (Immutables r) category of None \<Rightarrow> [] | Some pats \<Rightarrow> pats)"

text \<open>
  Modelled from the spec: \<^verbatim>\<open>NewRulesBuilder(distributionPath)\<close> of section 4.3. The
  schema reader is an external collaborator: \<open>readSchema\<close> gives the text of the schema
  under the distribution path, or nothing when the file is missing, and \<open>parseSchema\<close>
  gives the rule set of a well-formed schema, or nothing when it is malformed.
\<close>

definition NewRulesBuilder ::
  "(string \<Rightarrow> string option) \<Rightarrow> (string \<Rightarrow> (string \<times> pattern list) list option)
   \<Rightarrow> string \<Rightarrow> error + RuleSource" where
  "NewRulesBuilder readSchema parseSchema distributionPath =
     (case readSchema distributionPath of
        None \<Rightarrow> Inl (ErrorString ''rule schema is missing'')
      | Some text \<Rightarrow>
          (case parseSchema text of
             None \<Rightarrow> Inl (ErrorString ''rule schema is malformed'')
           | Some rules \<Rightarrow> Inr \<lparr>Immutables = rules\<rparr>))"

section \<open>The pre-flight phase\<close>

text \<open>
  The fields of \<^verbatim>\<open>PreFlight\<close> that \<^verbatim>\<open>Exec\<close> reads as data: the path of the embedded
  operation phase, the terraform state settings of \<^verbatim>\<open>furyctlConf\<close> that go into the
  templates, and the two paths.
\<close>

record PreFlight =
  PhasePath :: string
  BucketName :: string
  KeyPrefix :: string
  Region :: string
  SkipRegionValidation :: bool
  distroPath :: string
  furyctlConfPath :: string

text \<open>
  What the phase calls and does not define: the state store, the two tool runners, the
  operation phase, the YAML helpers, the file system, the diff checker and the rules
  builder. Each field is the outcome of the call of that name (\<open>None\<close>, or \<open>Inr\<close>, is
  Go's \<^verbatim>\<open>err == nil\<close>); the diff checker and the rules builder are fields too, so that
  what is proved of the phase holds for whatever they compute.
\<close>

record collaborators =
  phase_CreateFolder :: "error option"
  os_MkdirTemp :: "error + string"
  fs_Sub :: "error option"
  iox_CopyRecursive :: "string \<Rightarrow> error option"
  phase_CopyFromTemplate :: "val \<Rightarrow> string \<Rightarrow> string \<Rightarrow> string \<Rightarrow> string \<Rightarrow> error option"
  phase_CreateFolderStructure :: "error option"
  tfRunner_Init :: "error option"
  tfRunner_State :: "string list \<Rightarrow> error + string"
  kubeRunner_Version :: "error + string"
  stateStore_GetConfig :: "error + string"
  yamlx_UnmarshalV3 :: "string \<Rightarrow> error + (string \<times> val) list"
  yamlx_FromFileV3 :: "string \<Rightarrow> error + (string \<times> val) list"
  diff_GenerateDiff :: "val \<Rightarrow> val \<Rightarrow> error + DiffRecord list"
  diff_AssertImmutableViolations :: "DiffRecord list \<Rightarrow> pattern list \<Rightarrow> ViolationError list"
  rules_NewEKSClusterRulesBuilder :: "string \<Rightarrow> error + RuleSource"
  rules_GetImmutables :: "RuleSource \<Rightarrow> string \<Rightarrow> pattern list"

text \<open>
  The trace of a run: one event for every call of a collaborator, in the order of the
  calls. Logging is left out.
\<close>

datatype event =
    CallCreateFolder
  | CallMkdirTemp
  | CallFsSub
  | CallCopyRecursive string
  | CallCopyFromTemplate string string
  | CallRemoveAll string
  | CallCreateFolderStructure
  | CallTfInit
  | CallTfState "string list"
  | CallKubeVersion
  | CallGetConfig
  | CallUnmarshalV3 string
  | CallFromFileV3 string
  | CallGenerateDiff val val
  | CallNewRulesBuilder string
  | CallGetImmutables string
  | CallAssertImmutableViolations "DiffRecord list" "pattern list"

text \<open>
  A run gives its trace and the error it returns (\<open>None\<close> is \<^verbatim>\<open>nil\<close>).
  \<open>after tr r\<close> is the run \<open>r\<close> with the calls \<open>tr\<close> made before it.
\<close>

type_synonym run = "event list \<times> error option"

definition after :: "event list \<Rightarrow> run \<Rightarrow> run" where
  "after tr r = (tr @ fst r, snd r)"

definition path_Join :: "string \<Rightarrow> string \<Rightarrow> string" where
  "path_Join a b = a @ ''/'' @ b"

definition tfConfVars :: "PreFlight \<Rightarrow> val" where
  "tfConfVars p =
     VMap [(''terraform'',
       VMap [(''backend'',
         VMap [(''s3'',
           VMap [(''bucketName'', VStr (BucketName p)),
                 (''keyPrefix'', VStr (KeyPrefix p)),
                 (''region'', VStr (Region p)),
                 (''skipRegionValidation'', VBool (SkipRegionValidation p))])])])]"

text \<open>
  \<^verbatim>\<open>copyFromTemplate\<close> (\<^verbatim>\<open>preflight.go\<close>, lines 134 to 184). The deferred
  \<^verbatim>\<open>os.RemoveAll(tmpFolder)\<close> runs on every return after the temporary folder exists.
\<close>

definition copyFromTemplate :: "collaborators \<Rightarrow> PreFlight \<Rightarrow> run" where
  "copyFromTemplate w p =
     after [CallMkdirTemp]
     (case os_MkdirTemp w of
        Inl err \<Rightarrow> ([], Some (Wrapped ''error creating temp folder'' err))
      | Inr tmpFolder \<Rightarrow>
     (case
       (after [CallFsSub]
        (case fs_Sub w of
           Some err \<Rightarrow> ([], Some (Wrapped ''error getting subfs'' err))
         | None \<Rightarrow>
        after [CallCopyRecursive tmpFolder]
        (case iox_CopyRecursive w tmpFolder of
           Some err \<Rightarrow> ([], Some (Wrapped ''error copying template files'' err))
         | None \<Rightarrow>
        after [CallCopyFromTemplate tmpFolder (path_Join (PhasePath p) ''terraform'')]
        (case phase_CopyFromTemplate w (tfConfVars p) ''kube'' tmpFolder
                (path_Join (PhasePath p) ''terraform'') (furyctlConfPath p) of
           Some err \<Rightarrow> ([], Some (Wrapped ''error generating from template files'' err))
         | None \<Rightarrow> ([], None)))))
      of (tr, res) \<Rightarrow> (tr @ [CallRemoveAll tmpFolder], res)))"

text \<open>
  \<^verbatim>\<open>CheckStateDiffs\<close> (\<^verbatim>\<open>preflight.go\<close>, lines 186 to 229).
\<close>

definition CheckStateDiffs :: "collaborators \<Rightarrow> PreFlight \<Rightarrow> run" where
  "CheckStateDiffs w p =
     after [CallGetConfig]
     (case stateStore_GetConfig w of
        Inl err \<Rightarrow> ([], Some (Wrapped ''error while getting current cluster config'' err))
      | Inr storedCfgStr \<Rightarrow>
     after [CallUnmarshalV3 storedCfgStr]
     (case yamlx_UnmarshalV3 w storedCfgStr of
        Inl err \<Rightarrow> ([], Some (Wrapped ''error while unmarshalling config file'' err))
      | Inr storedCfg \<Rightarrow>
     after [CallFromFileV3 (furyctlConfPath p)]
     (case yamlx_FromFileV3 w (furyctlConfPath p) of
        Inl err \<Rightarrow> ([], Some (Wrapped ''error while reading config file'' err))
      | Inr newCfg \<Rightarrow>
     after [CallGenerateDiff (VMap storedCfg) (VMap newCfg)]
     (case diff_GenerateDiff w (VMap storedCfg) (VMap newCfg) of
        Inl err \<Rightarrow> ([], Some (Wrapped ''error while diffing configs'' err))
      | Inr diffs \<Rightarrow>
     after [CallNewRulesBuilder (distroPath p)]
     (case rules_NewEKSClusterRulesBuilder w (distroPath p) of
        Inl err \<Rightarrow> ([], Some (Wrapped ''error while creating rules builder'' err))
      | Inr r \<Rightarrow>
     (let i1 = rules_GetImmutables w r ''infrastructure'';
          errs1 = [] @ diff_AssertImmutableViolations w diffs i1;
          i2 = rules_GetImmutables w r ''kubernetes'';
          errs2 = errs1 @ diff_AssertImmutableViolations w diffs i2;
          i3 = rules_GetImmutables w r ''distribution'';
          errs = errs2 @ diff_AssertImmutableViolations w diffs i3
      in ([CallGetImmutables ''infrastructure'', CallAssertImmutableViolations diffs i1,
           CallGetImmutables ''kubernetes'', CallAssertImmutableViolations diffs i2,
           CallGetImmutables ''distribution'', CallAssertImmutableViolations diffs i3],
          if length errs > 0 then Some (ErrImmutable errs) else None)))))))"

text \<open>
  \<^verbatim>\<open>Exec\<close> (\<^verbatim>\<open>preflight.go\<close>, lines 92 to 132).
\<close>

definition Exec :: "collaborators \<Rightarrow> PreFlight \<Rightarrow> run" where
  "Exec w p =
     after [CallCreateFolder]
     (case phase_CreateFolder w of
        Some err \<Rightarrow> ([], Some (Wrapped ''error creating preflight phase folder'' err))
      | None \<Rightarrow>
     after (fst (copyFromTemplate w p))
     (case snd (copyFromTemplate w p) of
        Some err \<Rightarrow> ([], Some err)
      | None \<Rightarrow>
     after [CallCreateFolderStructure]
     (case phase_CreateFolderStructure w of
        Some err \<Rightarrow> ([], Some (Wrapped ''error creating preflight phase folder structure'' err))
      | None \<Rightarrow>
     after [CallTfInit]
     (case tfRunner_Init w of
        Some err \<Rightarrow> ([], Some (Wrapped ''error running terraform init'' err))
      | None \<Rightarrow>
     after [CallTfState [''show'', ''data.aws_eks_cluster.fury'']]
     (case tfRunner_State w [''show'', ''data.aws_eks_cluster.fury''] of
        Inl err \<Rightarrow> ([], None)
      | Inr shown \<Rightarrow>
     after [CallKubeVersion]
     (case kubeRunner_Version w of
        Inl err \<Rightarrow>
          ([], Some (Wrapped ''cluster is unreachable, make sure you have access to the cluster'' err))
      | Inr version \<Rightarrow>
     after (fst (CheckStateDiffs w p))
     (case snd (CheckStateDiffs w p) of
        Some err \<Rightarrow> ([], Some (Wrapped ''error checking state diffs'' err))
      | None \<Rightarrow> ([], None))))))))"

section \<open>Parsing the configuration file\<close>

text \<open>
  What \<^verbatim>\<open>yaml.Unmarshal\<close> (yaml.v2) leaves in a field of type \<^verbatim>\<open>interface{}\<close>:
  nil for an absent or null node, a scalar, a slice, or a
  \<^verbatim>\<open>map[interface{}]interface{}\<close>.
\<close>

datatype dyn =
    DNil
  | DBool bool
  | DInt int
  | DString string
  | DSlice "dyn list"
  | DMap "(dyn \<times> dyn) list"

text \<open>
  The provisioner structs \<^verbatim>\<open>clustercfg.AWSSimple\<close>, \<^verbatim>\<open>bootstrapcfg.Dummy\<close> and
  \<^verbatim>\<open>bootstrapcfg.AWS\<close> are declared outside the sources; \<^verbatim>\<open>config.go\<close> only
  decodes into them and stores them.
\<close>

typedecl AWSSimple
typedecl Dummy
typedecl AWS

text \<open>
  The dynamic value of \<^verbatim>\<open>Configuration.Spec\<close>: what the decoder left there, or the
  provisioner struct a parser has put in its place.
\<close>

datatype spec =
    Decoded dyn
  | AWSSimpleSpec AWSSimple
  | DummySpec Dummy
  | AWSSpec AWS

record StateConfiguration =
  Backend :: string
  Config :: "(string \<times> string) list"

record TerraformExecutor =
  ExecutorPath :: string
  Version :: string
  StateConfig :: StateConfiguration

record Metadata =
  Name :: string
  Labels :: "(string \<times> dyn) list"

record Configuration =
  Kind :: string
  Metadata :: Metadata
  Spec :: spec
  Executor :: TerraformExecutor
  Provisioner :: string

text \<open>
  The library calls of \<^verbatim>\<open>config.go\<close>: \<^verbatim>\<open>ioutil.ReadFile\<close>, \<^verbatim>\<open>yaml.Unmarshal\<close>
  into the base configuration and into each provisioner struct, and \<^verbatim>\<open>yaml.Marshal\<close>
  of the spec.
\<close>

record yaml_lib =
  ReadFile :: "string \<Rightarrow> error + string"
  Unmarshal :: "string \<Rightarrow> error + Configuration"
  Marshal :: "spec \<Rightarrow> error + string"
  UnmarshalAWSSimple :: "string \<Rightarrow> error + AWSSimple"
  UnmarshalDummy :: "string \<Rightarrow> error + Dummy"
  UnmarshalAWS :: "string \<Rightarrow> error + AWS"

text \<open>A Go call returns, or panics with a message.\<close>

datatype 'a go = Returns 'a | Panics string

text \<open>
  The unchecked type assertion \<^verbatim>\<open>config.Spec.(map[interface{}]interface{})\<close>: it
  gives the map when the dynamic type is that map type, and panics otherwise (for nil
  too).
\<close>

fun assert_map :: "spec \<Rightarrow> (dyn \<times> dyn) list go" where
  "assert_map (Decoded (DMap m)) = Returns m"
| "assert_map s = Panics ''interface conversion: interface {} is not map[interface {}]interface {}''"

fun is_mapping :: "spec \<Rightarrow> bool" where
  "is_mapping (Decoded (DMap m)) = True"
| "is_mapping s = False"

text \<open>Indexing a Go map: the zero value, nil, for a missing key.\<close>

definition index_map :: "(dyn \<times> dyn) list \<Rightarrow> dyn \<Rightarrow> dyn" where
  "index_map m k = (case map_of m k of None \<Rightarrow> DNil | Some v \<Rightarrow> v)"

text \<open>
  \<^verbatim>\<open>clusterParser\<close> (\<^verbatim>\<open>config.go\<close>, lines 79 to 102). It updates the configuration
  it is given and returns an error or nil; the result is the configuration after the
  call and the error.
\<close>

definition clusterParser :: "yaml_lib \<Rightarrow> Configuration \<Rightarrow> (Configuration \<times> error option) go" where
  "clusterParser lib config =
     (case assert_map (Spec config) of
        Panics msg \<Rightarrow> Panics msg
      | Returns m \<Rightarrow>
          (let provisioner = index_map m (DString ''provisioner'') in
           case Marshal lib (Spec config) of
             Inl err \<Rightarrow> Returns (config, Some err)
           | Inr specBytes \<Rightarrow>
               if provisioner = DString ''aws-simple'' then
                 (case UnmarshalAWSSimple lib specBytes of
                    Inl err \<Rightarrow> Returns (config, Some err)
                  | Inr awsSimpleSpec \<Rightarrow>
                      Returns (config\<lparr>Spec := AWSSimpleSpec awsSimpleSpec,
                                      Provisioner := ''aws-simple''\<rparr>, None))
               else Returns (config, Some (ErrorString ''Cluster provisioner not found''))))"

text \<open>
  \<^verbatim>\<open>bootstrapParser\<close> (\<^verbatim>\<open>config.go\<close>, lines 104 to 137).
\<close>

definition bootstrapParser :: "yaml_lib \<Rightarrow> Configuration \<Rightarrow> (Configuration \<times> error option) go" where
  "bootstrapParser lib config =
     (case assert_map (Spec config) of
        Panics msg \<Rightarrow> Panics msg
      | Returns m \<Rightarrow>
          (let provisioner = index_map m (DString ''provisioner'') in
           case Marshal lib (Spec config) of
             Inl err \<Rightarrow> Returns (config, Some err)
           | Inr specBytes \<Rightarrow>
               if provisioner = DString ''dummy'' then
                 (case UnmarshalDummy lib specBytes of
                    Inl err \<Rightarrow> Returns (config, Some err)
                  | Inr dummySpec \<Rightarrow>
                      Returns (config\<lparr>Spec := DummySpec dummySpec,
                                      Provisioner := ''dummy''\<rparr>, None))
               else if provisioner = DString ''aws'' then
                 (case UnmarshalAWS lib specBytes of
                    Inl err \<Rightarrow> Returns (config, Some err)
                  | Inr awsSpec \<Rightarrow>
                      Returns (config\<lparr>Spec := AWSSpec awsSpec, Provisioner := ''aws''\<rparr>, None))
               else Returns (config, Some (ErrorString ''Bootstrap provisioner not found''))))"

text \<open>
  \<^verbatim>\<open>Parse\<close> (\<^verbatim>\<open>config.go\<close>, lines 47 to 77): the parsed configuration or an error,
  unless a parser panics.
\<close>

definition finish :: "(Configuration \<times> error option) go \<Rightarrow> (error + Configuration) go" where
  "finish r =
     (case r of
        Panics msg \<Rightarrow> Panics msg
      | Returns (config, Some err) \<Rightarrow> Returns (Inl err)
      | Returns (config, None) \<Rightarrow> Returns (Inr config))"

definition Parse :: "yaml_lib \<Rightarrow> string \<Rightarrow> (error + Configuration) go" where
  "Parse lib path =
     (case ReadFile lib path of
        Inl err \<Rightarrow> Returns (Inl err)
      | Inr content \<Rightarrow>
          (case Unmarshal lib content of
             Inl err \<Rightarrow> Returns (Inl err)
           | Inr baseConfig \<Rightarrow>
               if Kind baseConfig = ''Cluster'' then finish (clusterParser lib baseConfig)
               else if Kind baseConfig = ''Bootstrap'' then finish (bootstrapParser lib baseConfig)
               else Returns (Inl (ErrorString
                      (''Parser not found for '' @ Kind baseConfig @ '' kind'')))))"

section \<open>Reference collaborators\<close>

text \<open>
  A concrete set of collaborators on which the theorems below are exercised: every tool
  succeeds, the state store and the configuration file decode to the two given trees,
  the diff checker and the rules builder are the ones modelled above, and the rule schema
  is present with the given rule set, or absent. The other worlds change one outcome.
\<close>

definition reference_world ::
  "(string \<times> val) list \<Rightarrow> (string \<times> val) list \<Rightarrow> (string \<times> pattern list) list option
   \<Rightarrow> collaborators" where
  "reference_world stored incoming rules =
     \<lparr>phase_CreateFolder = None,
      os_MkdirTemp = Inr ''/tmp/furyctl-kube-configs-1'',
      fs_Sub = None,
      iox_CopyRecursive = (\<lambda>dst. None),
      phase_CopyFromTemplate = (\<lambda>cfg prefix src dst conf. None),
      phase_CreateFolderStructure = None,
      tfRunner_Init = None,
      tfRunner_State = (\<lambda>args. Inr ''data.aws_eks_cluster.fury''),
      kubeRunner_Version = Inr ''v1.25'',
      stateStore_GetConfig = Inr ''stored'',
      yamlx_UnmarshalV3 = (\<lambda>text. Inr stored),
      yamlx_FromFileV3 = (\<lambda>file. Inr incoming),
      diff_GenerateDiff = GenerateDiff,
      diff_AssertImmutableViolations = AssertImmutableViolations,
      rules_NewEKSClusterRulesBuilder =
        NewRulesBuilder (\<lambda>d. map_option (\<lambda>r. ''schema'') rules) (\<lambda>text. rules),
      rules_GetImmutables = GetImmutables\<rparr>"

definition reference_phase :: PreFlight where
  "reference_phase =
     \<lparr>PhasePath = ''.furyctl/preflight'', BucketName = ''bucket'', KeyPrefix = ''fury'',
      Region = ''eu-west-1'', SkipRegionValidation = False,
      distroPath = ''.furyctl/distribution'', furyctlConfPath = ''furyctl.yaml''\<rparr>"

definition cidr_tree :: "string \<Rightarrow> (string \<times> val) list" where
  "cidr_tree c = [(''spec'', VMap [(''network'', VMap [(''cidr'', VStr c)])])]"

definition state_error_world :: "error \<Rightarrow> collaborators" where
  "state_error_world err =
     (reference_world (cidr_tree ''10.0.0.0/16'') (cidr_tree ''10.1.0.0/16'') (Some []))
       \<lparr>tfRunner_State := (\<lambda>args. Inl err)\<rparr>"

definition unreachable_world :: collaborators where
  "unreachable_world =
     (reference_world (cidr_tree ''10.0.0.0/16'') (cidr_tree ''10.1.0.0/16'') (Some []))
       \<lparr>kubeRunner_Version := Inl (ErrorString ''connection refused'')\<rparr>"

definition schema_absent_world :: collaborators where
  "schema_absent_world =
     reference_world (cidr_tree ''10.0.0.0/16'') (cidr_tree ''10.1.0.0/16'') None"

text \<open>
  A YAML library for \<^verbatim>\<open>Parse\<close> whose file holds only the kind \<open>k\<close>, and whose
  decoder leaves \<open>s\<close> in the spec field (nil when the document has no spec).
\<close>

definition specless_configuration :: "string \<Rightarrow> dyn \<Rightarrow> Configuration" where
  "specless_configuration k s =
     \<lparr>Kind = k,
      Metadata = \<lparr>Name = ''demo'', Labels = []\<rparr>,
      Spec = Decoded s,
      Executor = \<lparr>ExecutorPath = [], Version = [],
                  StateConfig = \<lparr>Backend = [], Config = []\<rparr>\<rparr>,
      Provisioner = []\<rparr>"

definition specless_lib :: "string \<Rightarrow> dyn \<Rightarrow> yaml_lib" where
  "specless_lib k s =
     \<lparr>ReadFile = (\<lambda>path. Inr (''kind: '' @ k)),
      Unmarshal = (\<lambda>content. Inr (specless_configuration k s)),
      Marshal = (\<lambda>s. Inr []),
      UnmarshalAWSSimple = (\<lambda>bytes. Inl (ErrorString ''no fields'')),
      UnmarshalDummy = (\<lambda>bytes. Inl (ErrorString ''no fields'')),
      UnmarshalAWS = (\<lambda>bytes. Inl (ErrorString ''no fields''))\<rparr>"

text \<open>
  One configuration pair as two runs see it: the same trees, with the entries of every
  mapping enumerated in another order.
\<close>

definition stored_first_run :: val where
  "stored_first_run =
     VMap [(''spec'', VMap [(''network'', VMap [(''cidr'', VStr ''10.0.0.0/16''),
                                               (''name'', VStr ''main'')]),
                           (''tags'', VSeq [VStr ''a''])])]"

definition stored_second_run :: val where
  "stored_second_run =
     VMap [(''spec'', VMap [(''tags'', VSeq [VStr ''a'']),
                           (''network'', VMap [(''name'', VStr ''main''),
                                               (''cidr'', VStr ''10.0.0.0/16'')])])]"

definition incoming_first_run :: val where
  "incoming_first_run =
     VMap [(''spec'', VMap [(''zones'', VNum 3),
                           (''network'', VMap [(''cidr'', VStr ''10.1.0.0/16''),
                                               (''name'', VStr ''main'')])])]"

definition incoming_second_run :: val where
  "incoming_second_run =
     VMap [(''spec'', VMap [(''network'', VMap [(''name'', VStr ''main''),
                                               (''cidr'', VStr ''10.1.0.0/16'')]),
                           (''zones'', VNum 3)])]"

section \<open>Properties of the diff engine\<close>

lemma diff_val_same: "x = y \<Longrightarrow> diff_val p x y = []"
proof (induction p x y rule: diff_val.induct)
  case (1 p a b)
  have "(case map_of a k of
           None \<Rightarrow> (case map_of b k of None \<Rightarrow> [] | Some y \<Rightarrow> [added (p @ [Key k]) y])
         | Some x \<Rightarrow> (case map_of b k of
                        None \<Rightarrow> [removed (p @ [Key k]) x]
                      | Some y \<Rightarrow> diff_val (p @ [Key k]) x y)) = []"
    if "k \<in> set (union_keys a b)" for k
    using that "1.IH" [of k] "1.prems" by (auto split: option.splits)
  then show ?case by simp
next
  case (2 p xs ys)
  then show ?case by simp
qed simp_all



lemma same_tree_VMap_left: "same_tree (VMap a) y \<Longrightarrow> \<exists>b. y = VMap b"
  by (cases y) simp_all

lemma same_tree_VSeq_left: "same_tree (VSeq xs) y \<Longrightarrow> \<exists>ys. y = VSeq ys"
  by (cases y) simp_all

lemma same_tree_VMap_right: "same_tree x (VMap b) \<Longrightarrow> \<exists>a. x = VMap a"
  by (cases x) simp_all

lemma same_tree_VSeq_right: "same_tree x (VSeq ys) \<Longrightarrow> \<exists>xs. x = VSeq xs"
  by (cases x) simp_all

lemma same_tree_scalar:
  "same_tree x x' \<Longrightarrow> (\<forall>a. x \<noteq> VMap a) \<Longrightarrow> (\<forall>xs. x \<noteq> VSeq xs) \<Longrightarrow> x' = x"
  by (cases x) auto

lemma diff_val_leaf:
  "\<not> (\<exists>a b. x = VMap a \<and> y = VMap b) \<Longrightarrow> \<not> (\<exists>xs ys. x = VSeq xs \<and> y = VSeq ys) \<Longrightarrow>
     diff_val p x y = (if x = y then [] else [changed p x y])"
  by (cases x; cases y) simp_all

lemma same_tree_lookup:
  assumes "same_tree (VMap a) (VMap a')"
  shows "rel_option same_tree (map_of a k) (map_of a' k)"
proof (cases "k \<in> fst ` set a")
  case True
  from assms have "\<forall>e \<in> set a. case map_of a (fst e) of
                        None \<Rightarrow> False
                      | Some x \<Rightarrow> (case map_of a' (fst e) of
                                     None \<Rightarrow> False
                                   | Some y \<Rightarrow> same_tree x y)"
    by (simp add: list_all_iff)
  with True have "case map_of a k of
                        None \<Rightarrow> False
                      | Some x \<Rightarrow> (case map_of a' k of
                                     None \<Rightarrow> False
                                   | Some y \<Rightarrow> same_tree x y)"
    by force
  then show ?thesis by (simp split: option.splits)
next
  case False
  moreover from assms have "fst ` set a = fst ` set a'" by simp
  ultimately have "map_of a k = None" "map_of a' k = None"
    by (simp_all add: map_of_eq_None_iff)
  then show ?thesis by simp
qed

lemma union_keys_set: "union_keys a b = sorted_list_of_set (fst ` set a \<union> fst ` set b)"
  by (simp add: union_keys_def sorted_list_of_set_sort_remdups [symmetric])

lemma list_all2_concat_map:
  "(\<And>k. k \<in> set ks \<Longrightarrow> list_all2 R (f k) (g k)) \<Longrightarrow>
     list_all2 R (concat (map f ks)) (concat (map g ks))"
  by (induction ks) (auto intro: list_all2_appendI)

lemma same_record_simps:
  "same_record (added p y) (added q y') \<longleftrightarrow> p = q \<and> same_tree y y'"
  "same_record (removed p x) (removed q x') \<longleftrightarrow> p = q \<and> same_tree x x'"
  "same_record (changed p x y) (changed q x' y') \<longleftrightarrow> p = q \<and> same_tree x x' \<and> same_tree y y'"
  by (auto simp: same_record_def added_def removed_def changed_def)

lemma leaf_same:
  assumes "same_tree x x'" and "same_tree y y'"
    and "\<not> (\<exists>a b. x = VMap a \<and> y = VMap b)" and "\<not> (\<exists>xs ys. x = VSeq xs \<and> y = VSeq ys)"
  shows "list_all2 same_record (diff_val p x y) (diff_val p x' y')"
proof -
  have l': "\<not> (\<exists>a b. x' = VMap a \<and> y' = VMap b)" "\<not> (\<exists>xs ys. x' = VSeq xs \<and> y' = VSeq ys)"
    using assms same_tree_VMap_right same_tree_VSeq_right by blast+
  have eq: "x = y \<longleftrightarrow> x' = y'"
  proof -
    consider (map) a where "x = VMap a" | (seq) xs where "x = VSeq xs"
      | (scalar) "(\<forall>a. x \<noteq> VMap a) \<and> (\<forall>xs. x \<noteq> VSeq xs)"
      by blast
    then show ?thesis
    proof cases
      case map
      with assms(1) obtain a' where "x' = VMap a'"
        using same_tree_VMap_left by blast
      with map assms(3) l'(1) show ?thesis by auto
    next
      case seq
      with assms(1) obtain xs' where "x' = VSeq xs'"
        using same_tree_VSeq_left by blast
      with seq assms(4) l'(2) show ?thesis by auto
    next
      case scalar
      then have x: "x' = x" using assms(1) by (simp add: same_tree_scalar)
      consider (map) b where "y = VMap b" | (seq) ys where "y = VSeq ys"
        | (scalar) "(\<forall>a. y \<noteq> VMap a) \<and> (\<forall>xs. y \<noteq> VSeq xs)"
        by blast
      then show ?thesis
      proof cases
        case map
        with assms(2) obtain b' where "y' = VMap b'"
          using same_tree_VMap_left by blast
        with map x scalar show ?thesis by auto
      next
        case seq
        with assms(2) obtain ys' where "y' = VSeq ys'"
          using same_tree_VSeq_left by blast
        with seq x scalar show ?thesis by auto
      next
        case scalar
        then have "y' = y" using assms(2) by (simp add: same_tree_scalar)
        with x show ?thesis by simp
      qed
    qed
  qed
  show ?thesis
  proof (cases "x = y")
    case True
    with eq have "x' = y'" by simp
    with True show ?thesis by (simp add: diff_val_same)
  next
    case False
    with eq have "x' \<noteq> y'" by simp
    with False assms show ?thesis
      by (simp add: diff_val_leaf [OF assms(3,4)] diff_val_leaf [OF l'] same_record_simps)
  qed
qed

lemma diff_val_same_tree:
  "same_tree x x' \<Longrightarrow> same_tree y y' \<Longrightarrow>
     list_all2 same_record (diff_val p x y) (diff_val p x' y')"
proof (induction p x y arbitrary: x' y' rule: diff_val.induct)
  case (1 p a b)
  from "1.prems" obtain a' b' where x': "x' = VMap a'" and y': "y' = VMap b'"
    using same_tree_VMap_left by blast
  from "1.prems" x' y' have keys: "union_keys a' b' = union_keys a b"
    by (simp add: union_keys_set)
  have la: "rel_option same_tree (map_of a k) (map_of a' k)" for k
    using "1.prems"(1) x' by (simp only: same_tree_lookup)
  have lb: "rel_option same_tree (map_of b k) (map_of b' k)" for k
    using "1.prems"(2) y' by (simp only: same_tree_lookup)
  have "list_all2 same_record
          (case map_of a k of
             None \<Rightarrow> (case map_of b k of None \<Rightarrow> [] | Some y \<Rightarrow> [added (p @ [Key k]) y])
           | Some x \<Rightarrow> (case map_of b k of
                          None \<Rightarrow> [removed (p @ [Key k]) x]
                        | Some y \<Rightarrow> diff_val (p @ [Key k]) x y))
          (case map_of a' k of
             None \<Rightarrow> (case map_of b' k of None \<Rightarrow> [] | Some y \<Rightarrow> [added (p @ [Key k]) y])
           | Some x \<Rightarrow> (case map_of b' k of
                          None \<Rightarrow> [removed (p @ [Key k]) x]
                        | Some y \<Rightarrow> diff_val (p @ [Key k]) x y))"
    if k: "k \<in> set (union_keys a b)" for k
    using la [of k] lb [of k] "1.IH" [OF k]
    by (auto simp: option_rel_Some1 option_rel_Some2 same_record_simps split: option.splits)
  then show ?case
    unfolding x' y' diff_val.simps keys by (rule list_all2_concat_map)
next
  case (2 p xs ys)
  from "2.prems" obtain xs' ys' where x': "x' = VSeq xs'" and y': "y' = VSeq ys'"
    using same_tree_VSeq_left by blast
  from "2.prems" x' y' have len: "length xs' = length xs" "length ys' = length ys"
    and sx: "\<And>i. i < length xs \<Longrightarrow> same_tree (xs ! i) (xs' ! i)"
    and sy: "\<And>i. i < length ys \<Longrightarrow> same_tree (ys ! i) (ys' ! i)"
    by (simp_all add: list_all_iff)
  have m: "list_all2 same_record
        (concat (map (\<lambda>i. diff_val (p @ [Index i]) (xs ! i) (ys ! i))
                   [0..<min (length xs) (length ys)]))
        (concat (map (\<lambda>i. diff_val (p @ [Index i]) (xs' ! i) (ys' ! i))
                   [0..<min (length xs) (length ys)]))"
    by (rule list_all2_concat_map) (simp add: "2.IH" sx sy)
  have r: "list_all2 same_record
        (map (\<lambda>i. removed (p @ [Index i]) (xs ! i)) [length ys..<length xs])
        (map (\<lambda>i. removed (p @ [Index i]) (xs' ! i)) [length ys..<length xs])"
    by (simp add: list_all2_map1 list_all2_map2 list_all2_same same_record_simps sx)
  have a: "list_all2 same_record
        (map (\<lambda>i. added (p @ [Index i]) (ys ! i)) [length xs..<length ys])
        (map (\<lambda>i. added (p @ [Index i]) (ys' ! i)) [length xs..<length ys])"
    by (simp add: list_all2_map1 list_all2_map2 list_all2_same same_record_simps sy)
  show ?case
    unfolding x' y' diff_val.simps len
    by (intro list_all2_appendI m r a)
qed (rule leaf_same, assumption, assumption, simp (no_asm), simp (no_asm))+

lemma segment_less_irrefl: "\<not> segment_less s s"
  by (cases s) simp_all

lemma path_less_append: "path_less (p @ q) (p @ r) = path_less q r"
  by (induction p) (simp_all add: segment_less_irrefl)

lemma diff_val_prefix: "d \<in> set (diff_val p x y) \<Longrightarrow> \<exists>q. Path d = p @ q"
proof (induction p x y arbitrary: d rule: diff_val.induct)
  case (1 p a b)
  from "1.prems" obtain k where k: "k \<in> set (union_keys a b)"
    and d: "d \<in> set (case map_of a k of
                None \<Rightarrow> (case map_of b k of None \<Rightarrow> [] | Some y \<Rightarrow> [added (p @ [Key k]) y])
              | Some x \<Rightarrow> (case map_of b k of
                             None \<Rightarrow> [removed (p @ [Key k]) x]
                           | Some y \<Rightarrow> diff_val (p @ [Key k]) x y))"
    by auto
  from d "1.IH" [OF k] show ?case
    by (fastforce simp: added_def removed_def split: option.splits)
next
  case (2 p xs ys)
  from "2.prems" "2.IH" show ?case
    by (fastforce simp: added_def removed_def)
qed (auto simp: changed_def split: if_splits)

lemma sorted_wrt_concat_map:
  assumes "sorted_wrt (<) ks"
    and "\<And>k. k \<in> set ks \<Longrightarrow> sorted_wrt R (f k)"
    and "\<And>k k' x y. k \<in> set ks \<Longrightarrow> k' \<in> set ks \<Longrightarrow> k < k' \<Longrightarrow>
           x \<in> set (f k) \<Longrightarrow> y \<in> set (f k') \<Longrightarrow> R x y"
  shows "sorted_wrt R (concat (map f ks))"
  using assms
proof (induction ks)
  case Nil
  then show ?case by simp
next
  case (Cons k ks)
  from Cons.prems(1) have s: "sorted_wrt (<) ks" by simp
  have "sorted_wrt R (concat (map f ks))"
  proof (rule Cons.IH [OF s])
    fix k' assume "k' \<in> set ks"
    then show "sorted_wrt R (f k')" using Cons.prems(2) by simp
  next
    fix i j x y
    assume "i \<in> set ks" "j \<in> set ks" "i < j" "x \<in> set (f i)" "y \<in> set (f j)"
    then show "R x y" using Cons.prems(3) [of i j x y] by simp
  qed
  moreover have "R x y" if "x \<in> set (f k)" "y \<in> set (concat (map f ks))" for x y
  proof -
    from that(2) obtain k' where "k' \<in> set ks" "y \<in> set (f k')" by auto
    moreover with Cons.prems(1) have "k < k'" by auto
    ultimately show ?thesis using that(1) Cons.prems(3) [of k k' x y] by simp
  qed
  ultimately show ?case using Cons.prems(2) [of k] by (simp add: sorted_wrt_append)
qed

lemma union_keys_strict: "sorted_wrt (<) (union_keys a b)"
  by (simp add: union_keys_def strict_sorted_iff)

lemma diff_val_sorted: "sorted_wrt (\<lambda>d e. path_less (Path d) (Path e)) (diff_val p x y)"
proof (induction p x y rule: diff_val.induct)
  case (1 p a b)
  let ?f = "\<lambda>k. case map_of a k of
                None \<Rightarrow> (case map_of b k of None \<Rightarrow> [] | Some y \<Rightarrow> [added (p @ [Key k]) y])
              | Some x \<Rightarrow> (case map_of b k of
                             None \<Rightarrow> [removed (p @ [Key k]) x]
                           | Some y \<Rightarrow> diff_val (p @ [Key k]) x y)"
  have pre: "\<exists>q. Path d = p @ Key k # q" if "d \<in> set (?f k)" for d k
    using that diff_val_prefix [of d "p @ [Key k]" "the (map_of a k)" "the (map_of b k)"]
    by (fastforce simp: added_def removed_def split: option.splits)
  have "sorted_wrt (\<lambda>d e. path_less (Path d) (Path e)) (concat (map ?f (union_keys a b)))"
  proof (rule sorted_wrt_concat_map [OF union_keys_strict])
    fix k assume "k \<in> set (union_keys a b)"
    then show "sorted_wrt (\<lambda>d e. path_less (Path d) (Path e)) (?f k)"
      using "1.IH" by (auto split: option.splits)
  next
    fix k k' :: string and d e
    assume "k < k'" "d \<in> set (?f k)" "e \<in> set (?f k')"
    with pre [of d k] pre [of e k'] show "path_less (Path d) (Path e)"
      by (auto simp: path_less_append)
  qed
  then show ?case by simp
next
  case (2 p xs ys)
  let ?A = "concat (map (\<lambda>i. diff_val (p @ [Index i]) (xs ! i) (ys ! i))
                 [0..<min (length xs) (length ys)])"
  let ?B = "map (\<lambda>i. removed (p @ [Index i]) (xs ! i)) [length ys..<length xs]"
  let ?C = "map (\<lambda>i. added (p @ [Index i]) (ys ! i)) [length xs..<length ys]"
  have A: "sorted_wrt (\<lambda>d e. path_less (Path d) (Path e)) ?A"
  proof (rule sorted_wrt_concat_map)
    show "sorted_wrt (<) [0..<min (length xs) (length ys)]" by simp
  next
    fix i assume "i \<in> set [0..<min (length xs) (length ys)]"
    then show "sorted_wrt (\<lambda>d e. path_less (Path d) (Path e))
                 (diff_val (p @ [Index i]) (xs ! i) (ys ! i))"
      by (rule "2.IH")
  next
    fix i j :: nat and d e
    assume "i < j" "d \<in> set (diff_val (p @ [Index i]) (xs ! i) (ys ! i))"
      "e \<in> set (diff_val (p @ [Index j]) (xs ! j) (ys ! j))"
    with diff_val_prefix [of d "p @ [Index i]" "xs ! i" "ys ! i"]
      diff_val_prefix [of e "p @ [Index j]" "xs ! j" "ys ! j"]
    show "path_less (Path d) (Path e)" by (auto simp: path_less_append)
  qed
  have pA: "\<exists>i q. i < min (length xs) (length ys) \<and> Path d = p @ Index i # q"
    if "d \<in> set ?A" for d
  proof -
    from that obtain i where "i < min (length xs) (length ys)"
      "d \<in> set (diff_val (p @ [Index i]) (xs ! i) (ys ! i))" by auto
    with diff_val_prefix [of d "p @ [Index i]" "xs ! i" "ys ! i"] show ?thesis by auto
  qed
  have B: "sorted_wrt (\<lambda>d e. path_less (Path d) (Path e)) ?B"
    by (simp add: sorted_wrt_map removed_def path_less_append
        sorted_wrt_mono_rel [OF _ sorted_wrt_upt [of "length ys" "length xs"]])
  have C: "sorted_wrt (\<lambda>d e. path_less (Path d) (Path e)) ?C"
    by (simp add: sorted_wrt_map added_def path_less_append
        sorted_wrt_mono_rel [OF _ sorted_wrt_upt [of "length xs" "length ys"]])
  have AB: "path_less (Path d) (Path e)" if "d \<in> set ?A" "e \<in> set ?B" for d e
    using pA [OF that(1)] that(2) by (auto simp: removed_def path_less_append)
  have AC: "path_less (Path d) (Path e)" if "d \<in> set ?A" "e \<in> set ?C" for d e
    using pA [OF that(1)] that(2) by (auto simp: added_def path_less_append)
  have BC: "path_less (Path d) (Path e)" if "d \<in> set ?B" "e \<in> set ?C" for d e
    using that by auto
  have BC': "sorted_wrt (\<lambda>d e. path_less (Path d) (Path e)) (?B @ ?C)"
    unfolding sorted_wrt_append using B C BC by blast
  have "\<forall>d \<in> set ?A. \<forall>e \<in> set (?B @ ?C). path_less (Path d) (Path e)"
    using AB AC unfolding set_append by blast
  with A BC' have "sorted_wrt (\<lambda>d e. path_less (Path d) (Path e)) (?A @ ?B @ ?C)"
    unfolding sorted_wrt_append [of _ ?A] by blast
  then show ?case by (simp only: diff_val.simps)
qed simp_all

lemma same_tree_VMap_root:
  "same_tree x x' \<Longrightarrow> (\<exists>a. x = VMap a) \<longleftrightarrow> (\<exists>a'. x' = VMap a')"
  using same_tree_VMap_left same_tree_VMap_right by blast

text \<open>
  C7: the output of \<^verbatim>\<open>GenerateDiff\<close> does not depend on the order in which a run
  enumerates the mappings. On two pairs of inputs that are the same trees both calls
  fail alike, or both succeed with sequences of the same length whose records agree
  position by position in path and kind and carry the same trees as values. The order
  of the sequence is fixed by the paths alone: they ascend strictly in the order of
  paths, keys lexicographically and indices numerically.
\<close>

theorem GenerateDiff_deterministic:
  assumes "same_tree stored stored'" and "same_tree incoming incoming'"
  shows "rel_sum (=) (list_all2 same_record)
           (GenerateDiff stored incoming) (GenerateDiff stored' incoming')
     \<and> (\<forall>diffs. GenerateDiff stored incoming = Inr diffs \<longrightarrow>
           sorted_wrt (\<lambda>d e. path_less (Path d) (Path e)) diffs)"
proof -
  have "rel_sum (=) (list_all2 same_record)
           (GenerateDiff stored incoming) (GenerateDiff stored' incoming')"
  proof (cases "(\<exists>a. stored = VMap a) \<and> (\<exists>b. incoming = VMap b)")
    case True
    with assms same_tree_VMap_root [OF assms(1)] same_tree_VMap_root [OF assms(2)]
    obtain a b a' b' where "stored = VMap a" "incoming = VMap b"
      "stored' = VMap a'" "incoming' = VMap b'"
      by blast
    with assms diff_val_same_tree [OF assms, of "[]"] show ?thesis
      by (simp add: GenerateDiff_def del: diff_val.simps same_tree.simps)
  next
    case False
    with same_tree_VMap_root [OF assms(1)] same_tree_VMap_root [OF assms(2)]
    have "\<not> ((\<exists>a. stored' = VMap a) \<and> (\<exists>b. incoming' = VMap b))" by simp
    with False show ?thesis
      by (auto simp: GenerateDiff_def split: val.splits)
  qed
  moreover have "sorted_wrt (\<lambda>d e. path_less (Path d) (Path e)) diffs"
    if "GenerateDiff stored incoming = Inr diffs" for diffs
    using that diff_val_sorted [of "[]" stored incoming]
    by (auto simp: GenerateDiff_def split: val.splits)
  ultimately show ?thesis by blast
qed

theorem GenerateDiff_deterministic_witness:
  "rel_sum (=) (list_all2 same_record)
     (GenerateDiff stored_first_run incoming_first_run)
     (GenerateDiff stored_second_run incoming_second_run)
   \<and> GenerateDiff stored_first_run incoming_first_run =
       Inr [changed [Key ''spec'', Key ''network'', Key ''cidr'']
              (VStr ''10.0.0.0/16'') (VStr ''10.1.0.0/16''),
            removed [Key ''spec'', Key ''tags''] (VSeq [VStr ''a'']),
            added [Key ''spec'', Key ''zones''] (VNum 3)]
   \<and> GenerateDiff stored_second_run incoming_second_run =
       Inr [changed [Key ''spec'', Key ''network'', Key ''cidr'']
              (VStr ''10.0.0.0/16'') (VStr ''10.1.0.0/16''),
            removed [Key ''spec'', Key ''tags''] (VSeq [VStr ''a'']),
            added [Key ''spec'', Key ''zones''] (VNum 3)]
   \<and> sorted_wrt (\<lambda>d e. path_less (Path d) (Path e))
       [changed [Key ''spec'', Key ''network'', Key ''cidr'']
          (VStr ''10.0.0.0/16'') (VStr ''10.1.0.0/16''),
        removed [Key ''spec'', Key ''tags''] (VSeq [VStr ''a'']),
        added [Key ''spec'', Key ''zones''] (VNum 3)]"
proof -
  have t1: "same_tree stored_first_run stored_second_run"
    by (simp add: stored_first_run_def stored_second_run_def insert_commute)
  have t2: "same_tree incoming_first_run incoming_second_run"
    by (simp add: incoming_first_run_def incoming_second_run_def insert_commute)
  have t3: "GenerateDiff stored_first_run incoming_first_run =
       Inr [changed [Key ''spec'', Key ''network'', Key ''cidr'']
              (VStr ''10.0.0.0/16'') (VStr ''10.1.0.0/16''),
            removed [Key ''spec'', Key ''tags''] (VSeq [VStr ''a'']),
            added [Key ''spec'', Key ''zones''] (VNum 3)]"
    by (simp add: stored_first_run_def incoming_first_run_def GenerateDiff_def union_keys_def)
  have t4: "GenerateDiff stored_second_run incoming_second_run =
       Inr [changed [Key ''spec'', Key ''network'', Key ''cidr'']
              (VStr ''10.0.0.0/16'') (VStr ''10.1.0.0/16''),
            removed [Key ''spec'', Key ''tags''] (VSeq [VStr ''a'']),
            added [Key ''spec'', Key ''zones''] (VNum 3)]"
    by (simp add: stored_second_run_def incoming_second_run_def GenerateDiff_def union_keys_def)
  from GenerateDiff_deterministic [OF t1 t2] t3 t4 show ?thesis
    by (simp del: same_tree.simps)
qed

section \<open>Properties of the immutability checker and of the rule source\<close>

text \<open>
  The matcher accepts a path exactly when the pattern matches, segment by segment, a
  prefix of the path: the path is the declared one or lies below it.
\<close>

lemma pattern_matches_prefix:
  "pattern_matches pat p \<longleftrightarrow> (\<exists>pre rest. p = pre @ rest \<and> list_all2 segment_matches pat pre)"
proof (induction pat p rule: pattern_matches.induct)
  case (1 p)
  then show ?case by simp
next
  case (2 s ss)
  then show ?case by (simp add: list_all2_Cons1)
next
  case (3 s ss x xs)
  show ?case
  proof
    assume "pattern_matches (s # ss) (x # xs)"
    then have sx: "segment_matches s x" and "pattern_matches ss xs" by simp_all
    with 3 obtain pre rest where "xs = pre @ rest" "list_all2 segment_matches ss pre"
      by blast
    with sx have "x # xs = (x # pre) @ rest \<and> list_all2 segment_matches (s # ss) (x # pre)"
      by simp
    then show "\<exists>pre rest. x # xs = pre @ rest \<and> list_all2 segment_matches (s # ss) pre"
      by blast
  next
    assume "\<exists>pre rest. x # xs = pre @ rest \<and> list_all2 segment_matches (s # ss) pre"
    then obtain pre rest where pr: "x # xs = pre @ rest" "list_all2 segment_matches (s # ss) pre"
      by blast
    from pr(2) obtain y pre' where p': "pre = y # pre'" "segment_matches s y"
      "list_all2 segment_matches ss pre'"
      by (auto simp: list_all2_Cons1)
    with pr(1) have "y = x" "xs = pre' @ rest" by simp_all
    with p' 3 show "pattern_matches (s # ss) (x # xs)" by auto
  qed
qed

lemma set_AssertImmutableViolations:
  "set (AssertImmutableViolations diffs pats) =
     {violation_of d | d pat. d \<in> set diffs \<and> pat \<in> set pats \<and> pattern_matches pat (Path d)}"
  by (induction diffs) auto

lemma AssertImmutableViolations_no_patterns: "AssertImmutableViolations diffs [] = []"
  by (induction diffs) simp_all

text \<open>
  C2: \<^verbatim>\<open>AssertImmutableViolations\<close> reports a violation for a diff record exactly
  when some declared pattern matches, segment by segment, a prefix of the record's path
  (the path is a declared immutable path or a descendant of one; a wildcard segment
  matches any index). In the scenario of the spec, the stored and incoming trees differ
  in \<open>spec.network.cidr\<close> only, the diff is one Changed record there, and with
  \<open>spec.network\<close> declared immutable the checker returns exactly one violation, at
  \<open>spec.network.cidr\<close>. When no pattern matches the path of any record the result is
  the empty sequence; the checker has no error result.
\<close>

theorem AssertImmutableViolations_prefix_match:
  "(v \<in> set (AssertImmutableViolations diffs immutablePaths) \<longleftrightarrow>
      (\<exists>d \<in> set diffs. \<exists>pat \<in> set immutablePaths. v = violation_of d
         \<and> (\<exists>pre rest. Path d = pre @ rest \<and> list_all2 segment_matches pat pre)))
   \<and> (AssertImmutableViolations [d] immutablePaths \<noteq> [] \<longleftrightarrow>
      (\<exists>pat \<in> set immutablePaths.
         \<exists>pre rest. Path d = pre @ rest \<and> list_all2 segment_matches pat pre))
   \<and> GenerateDiff (VMap (cidr_tree ''10.0.0.0/16'')) (VMap (cidr_tree ''10.1.0.0/16'')) =
       Inr [changed [Key ''spec'', Key ''network'', Key ''cidr'']
              (VStr ''10.0.0.0/16'') (VStr ''10.1.0.0/16'')]
   \<and> AssertImmutableViolations
        [changed [Key ''spec'', Key ''network'', Key ''cidr'']
           (VStr ''10.0.0.0/16'') (VStr ''10.1.0.0/16'')]
        [[PKey ''spec'', PKey ''network'']] =
       [\<lparr>VPath = [Key ''spec'', Key ''network'', Key ''cidr''],
         VOld = Some (VStr ''10.0.0.0/16''), VNew = Some (VStr ''10.1.0.0/16'')\<rparr>]
   \<and> ((\<forall>d \<in> set diffs. \<forall>pat \<in> set immutablePaths.
         \<not> (\<exists>pre rest. Path d = pre @ rest \<and> list_all2 segment_matches pat pre))
      \<longrightarrow> AssertImmutableViolations diffs immutablePaths = [])"
proof -
  have a: "v \<in> set (AssertImmutableViolations diffs immutablePaths) \<longleftrightarrow>
      (\<exists>d \<in> set diffs. \<exists>pat \<in> set immutablePaths. v = violation_of d
         \<and> (\<exists>pre rest. Path d = pre @ rest \<and> list_all2 segment_matches pat pre))"
    unfolding set_AssertImmutableViolations pattern_matches_prefix by blast
  have b: "AssertImmutableViolations [d] immutablePaths \<noteq> [] \<longleftrightarrow>
      (\<exists>pat \<in> set immutablePaths.
         \<exists>pre rest. Path d = pre @ rest \<and> list_all2 segment_matches pat pre)"
    by (simp add: filter_empty_conv pattern_matches_prefix)
  have c: "GenerateDiff (VMap (cidr_tree ''10.0.0.0/16'')) (VMap (cidr_tree ''10.1.0.0/16'')) =
       Inr [changed [Key ''spec'', Key ''network'', Key ''cidr'']
              (VStr ''10.0.0.0/16'') (VStr ''10.1.0.0/16'')]"
    by (simp add: GenerateDiff_def cidr_tree_def union_keys_def)
  have d: "AssertImmutableViolations
        [changed [Key ''spec'', Key ''network'', Key ''cidr'']
           (VStr ''10.0.0.0/16'') (VStr ''10.1.0.0/16'')]
        [[PKey ''spec'', PKey ''network'']] =
       [\<lparr>VPath = [Key ''spec'', Key ''network'', Key ''cidr''],
         VOld = Some (VStr ''10.0.0.0/16''), VNew = Some (VStr ''10.1.0.0/16'')\<rparr>]"
    by (simp add: changed_def violation_of_def)
  have e: "(\<forall>d \<in> set diffs. \<forall>pat \<in> set immutablePaths.
         \<not> (\<exists>pre rest. Path d = pre @ rest \<and> list_all2 segment_matches pat pre))
      \<longrightarrow> AssertImmutableViolations diffs immutablePaths = []"
  proof
    assume n: "\<forall>d \<in> set diffs. \<forall>pat \<in> set immutablePaths.
         \<not> (\<exists>pre rest. Path d = pre @ rest \<and> list_all2 segment_matches pat pre)"
    have "set (AssertImmutableViolations diffs immutablePaths) = {}"
      unfolding set_AssertImmutableViolations pattern_matches_prefix using n by blast
    then show "AssertImmutableViolations diffs immutablePaths = []" by simp
  qed
  from a b c d e show ?thesis by blast
qed

theorem AssertImmutableViolations_prefix_match_witness:
  "AssertImmutableViolations
     [added [Key ''spec'', Key ''tags'', Key ''env''] (VStr ''prod''),
      changed [Key ''spec'', Key ''nodes'', Index 2, Key ''size''] (VNum 1) (VNum 2)]
     [[PKey ''spec'', PKey ''network''], [PKey ''spec'', PKey ''nodes'', PIndex 0]] = []
   \<and> AssertImmutableViolations
     [changed [Key ''spec'', Key ''nodes'', Index 2, Key ''size''] (VNum 1) (VNum 2)]
     [[PKey ''spec'', PKey ''network''], [PKey ''spec'', PKey ''nodes'', PAnyIndex]] \<noteq> []"
proof -
  let ?a = "added [Key ''spec'', Key ''tags'', Key ''env''] (VStr ''prod'')"
  let ?c = "changed [Key ''spec'', Key ''nodes'', Index 2, Key ''size''] (VNum 1) (VNum 2)"
  let ?p1 = "[[PKey ''spec'', PKey ''network''], [PKey ''spec'', PKey ''nodes'', PIndex 0]]"
  let ?p2 = "[[PKey ''spec'', PKey ''network''], [PKey ''spec'', PKey ''nodes'', PAnyIndex]]"
  have n: "\<forall>d \<in> set [?a, ?c]. \<forall>pat \<in> set ?p1.
         \<not> (\<exists>pre rest. Path d = pre @ rest \<and> list_all2 segment_matches pat pre)"
  proof -
    have "\<forall>d \<in> set [?a, ?c]. \<forall>pat \<in> set ?p1. \<not> pattern_matches pat (Path d)"
      by (simp add: added_def changed_def)
    then show ?thesis unfolding pattern_matches_prefix .
  qed
  have m: "\<exists>pat \<in> set ?p2.
         \<exists>pre rest. Path ?c = pre @ rest \<and> list_all2 segment_matches pat pre"
  proof -
    have "\<exists>pat \<in> set ?p2. pattern_matches pat (Path ?c)"
      by (simp add: changed_def)
    then show ?thesis unfolding pattern_matches_prefix .
  qed
  from AssertImmutableViolations_prefix_match [of _ "[?a, ?c]" ?p1] n
  have 1: "AssertImmutableViolations [?a, ?c] ?p1 = []" by blast
  from AssertImmutableViolations_prefix_match [of _ _ ?p2 ?c] m
  have 2: "AssertImmutableViolations [?c] ?p2 \<noteq> []" by blast
  from 1 2 show ?thesis by simp
qed

text \<open>
  C8: for a category that the loaded rule set does not declare, \<^verbatim>\<open>GetImmutables\<close>
  returns the empty set of patterns (it has no error result), and the checker run on
  that answer reports nothing: no declared path means no restriction.
\<close>

theorem GetImmutables_unknown_category:
  assumes "category \<notin> fst ` set (Immutables r)"
  shows "GetImmutables r category = []
     \<and> AssertImmutableViolations diffs (GetImmutables r category) = []"
proof -
  from assms have "map_of (Immutables r) category = None"
    by (simp add: map_of_eq_None_iff)
  then have "GetImmutables r category = []"
    by (simp add: GetImmutables_def)
  then show ?thesis by (simp add: AssertImmutableViolations_no_patterns)
qed

theorem GetImmutables_unknown_category_witness:
  "GetImmutables \<lparr>Immutables = [(''infrastructure'', [[PKey ''spec'', PKey ''network'']])]\<rparr>
     ''nonexistent'' = []
   \<and> AssertImmutableViolations
       [changed [Key ''spec'', Key ''network'', Key ''cidr''] (VStr ''10.0.0.0/16'') (VStr ''10.1.0.0/16'')]
       (GetImmutables \<lparr>Immutables = [(''infrastructure'', [[PKey ''spec'', PKey ''network'']])]\<rparr>
          ''nonexistent'') = []"
proof -
  have h: "''nonexistent'' \<notin> fst ` set (Immutables
             \<lparr>Immutables = [(''infrastructure'', [[PKey ''spec'', PKey ''network'']])]\<rparr>)"
    by simp
  show ?thesis using GetImmutables_unknown_category [OF h] by blast
qed

section \<open>Properties of the pre-flight phase\<close>

lemma copyFromTemplate_events:
  "set (fst (copyFromTemplate w p))
     \<subseteq> {CallMkdirTemp, CallFsSub} \<union> range CallCopyRecursive
       \<union> range (\<lambda>(a, b). CallCopyFromTemplate a b) \<union> range CallRemoveAll"
  by (auto simp: copyFromTemplate_def after_def split: sum.splits option.splits prod.splits)

lemma copyFromTemplate_no_checks:
  "CallKubeVersion \<notin> set (fst (copyFromTemplate w p))"
  "CallGetConfig \<notin> set (fst (copyFromTemplate w p))"
  "CallGenerateDiff s n \<notin> set (fst (copyFromTemplate w p))"
  "CallNewRulesBuilder d \<notin> set (fst (copyFromTemplate w p))"
  "CallGetImmutables c \<notin> set (fst (copyFromTemplate w p))"
  "CallAssertImmutableViolations ds ps \<notin> set (fst (copyFromTemplate w p))"
  using copyFromTemplate_events [of w p] by auto

lemma copyFromTemplate_State_update:
  "copyFromTemplate (w\<lparr>tfRunner_State := f\<rparr>) p = copyFromTemplate w p"
  by (simp add: copyFromTemplate_def cong: sum.case_cong option.case_cong prod.case_cong)

lemma CheckStateDiffs_State_update:
  "CheckStateDiffs (w\<lparr>tfRunner_State := f\<rparr>) p = CheckStateDiffs w p"
  by (simp add: CheckStateDiffs_def cong: sum.case_cong option.case_cong prod.case_cong)

lemmas world_defs = reference_world_def reference_phase_def state_error_world_def
  unreachable_world_def schema_absent_world_def

lemma reference_copyFromTemplate:
  "copyFromTemplate (reference_world a b r) reference_phase =
     ([CallMkdirTemp, CallFsSub, CallCopyRecursive ''/tmp/furyctl-kube-configs-1'',
       CallCopyFromTemplate ''/tmp/furyctl-kube-configs-1'' ''.furyctl/preflight/terraform'',
       CallRemoveAll ''/tmp/furyctl-kube-configs-1''], None)"
  by (simp add: copyFromTemplate_def after_def world_defs path_Join_def)

lemma state_error_copyFromTemplate:
  "copyFromTemplate (state_error_world e) reference_phase =
     ([CallMkdirTemp, CallFsSub, CallCopyRecursive ''/tmp/furyctl-kube-configs-1'',
       CallCopyFromTemplate ''/tmp/furyctl-kube-configs-1'' ''.furyctl/preflight/terraform'',
       CallRemoveAll ''/tmp/furyctl-kube-configs-1''], None)"
  by (simp add: state_error_world_def copyFromTemplate_State_update reference_copyFromTemplate)

lemma unreachable_copyFromTemplate:
  "copyFromTemplate unreachable_world reference_phase =
     ([CallMkdirTemp, CallFsSub, CallCopyRecursive ''/tmp/furyctl-kube-configs-1'',
       CallCopyFromTemplate ''/tmp/furyctl-kube-configs-1'' ''.furyctl/preflight/terraform'',
       CallRemoveAll ''/tmp/furyctl-kube-configs-1''], None)"
  by (simp add: copyFromTemplate_def after_def world_defs path_Join_def)

text \<open>
  C1: once the stored and the incoming configuration are loaded, the diff is generated
  and the rules builder is built, \<^verbatim>\<open>CheckStateDiffs\<close> asks the rule source for the
  immutable paths of "infrastructure", "kubernetes" and "distribution", in this order and
  once each, runs the immutability checker once on each answer, and appends the three
  results. It returns an error exactly when the appended list is not empty; the error
  wraps the whole list, and when the list is empty it returns nil. \<^verbatim>\<open>Exec\<close>, once
  it has reached the state checks, returns that error, wrapped, or nil in the same way.
\<close>

theorem CheckStateDiffs_aggregates:
  assumes "stateStore_GetConfig w = Inr storedCfgStr"
    and "yamlx_UnmarshalV3 w storedCfgStr = Inr storedCfg"
    and "yamlx_FromFileV3 w (furyctlConfPath p) = Inr newCfg"
    and "diff_GenerateDiff w (VMap storedCfg) (VMap newCfg) = Inr diffs"
    and "rules_NewEKSClusterRulesBuilder w (distroPath p) = Inr r"
    and "errs = diff_AssertImmutableViolations w diffs (rules_GetImmutables w r ''infrastructure'')
              @ diff_AssertImmutableViolations w diffs (rules_GetImmutables w r ''kubernetes'')
              @ diff_AssertImmutableViolations w diffs (rules_GetImmutables w r ''distribution'')"
  shows "fst (CheckStateDiffs w p) =
           [CallGetConfig, CallUnmarshalV3 storedCfgStr, CallFromFileV3 (furyctlConfPath p),
            CallGenerateDiff (VMap storedCfg) (VMap newCfg), CallNewRulesBuilder (distroPath p),
            CallGetImmutables ''infrastructure'',
            CallAssertImmutableViolations diffs (rules_GetImmutables w r ''infrastructure''),
            CallGetImmutables ''kubernetes'',
            CallAssertImmutableViolations diffs (rules_GetImmutables w r ''kubernetes''),
            CallGetImmutables ''distribution'',
            CallAssertImmutableViolations diffs (rules_GetImmutables w r ''distribution'')]
         \<and> snd (CheckStateDiffs w p) = (if errs = [] then None else Some (ErrImmutable errs))
         \<and> (snd (CheckStateDiffs w p) \<noteq> None \<longleftrightarrow> errs \<noteq> [])
         \<and> (phase_CreateFolder w = None \<and> snd (copyFromTemplate w p) = None
              \<and> phase_CreateFolderStructure w = None \<and> tfRunner_Init w = None
              \<and> tfRunner_State w [''show'', ''data.aws_eks_cluster.fury''] = Inr shown
              \<and> kubeRunner_Version w = Inr version
            \<longrightarrow> snd (Exec w p) =
                  (if errs = [] then None
                   else Some (Wrapped ''error checking state diffs'' (ErrImmutable errs))))"
proof -
  have c: "fst (CheckStateDiffs w p) =
           [CallGetConfig, CallUnmarshalV3 storedCfgStr, CallFromFileV3 (furyctlConfPath p),
            CallGenerateDiff (VMap storedCfg) (VMap newCfg), CallNewRulesBuilder (distroPath p),
            CallGetImmutables ''infrastructure'',
            CallAssertImmutableViolations diffs (rules_GetImmutables w r ''infrastructure''),
            CallGetImmutables ''kubernetes'',
            CallAssertImmutableViolations diffs (rules_GetImmutables w r ''kubernetes''),
            CallGetImmutables ''distribution'',
            CallAssertImmutableViolations diffs (rules_GetImmutables w r ''distribution'')]"
    and s: "snd (CheckStateDiffs w p) = (if errs = [] then None else Some (ErrImmutable errs))"
    using assms by (simp_all add: CheckStateDiffs_def after_def Let_def)
  from s show ?thesis
    unfolding c by (simp add: Exec_def after_def)
qed

theorem CheckStateDiffs_aggregates_witness:
  "fst (CheckStateDiffs
          (reference_world (cidr_tree ''10.0.0.0/16'') (cidr_tree ''10.1.0.0/16'')
             (Some [(''infrastructure'', [[PKey ''spec'', PKey ''network'']]),
                    (''distribution'', [[PKey ''spec'']])]))
          reference_phase) =
     [CallGetConfig, CallUnmarshalV3 ''stored'', CallFromFileV3 ''furyctl.yaml'',
      CallGenerateDiff (VMap (cidr_tree ''10.0.0.0/16'')) (VMap (cidr_tree ''10.1.0.0/16'')),
      CallNewRulesBuilder ''.furyctl/distribution'',
      CallGetImmutables ''infrastructure'',
      CallAssertImmutableViolations
        [changed [Key ''spec'', Key ''network'', Key ''cidr''] (VStr ''10.0.0.0/16'') (VStr ''10.1.0.0/16'')]
        [[PKey ''spec'', PKey ''network'']],
      CallGetImmutables ''kubernetes'',
      CallAssertImmutableViolations
        [changed [Key ''spec'', Key ''network'', Key ''cidr''] (VStr ''10.0.0.0/16'') (VStr ''10.1.0.0/16'')]
        [],
      CallGetImmutables ''distribution'',
      CallAssertImmutableViolations
        [changed [Key ''spec'', Key ''network'', Key ''cidr''] (VStr ''10.0.0.0/16'') (VStr ''10.1.0.0/16'')]
        [[PKey ''spec'']]]
   \<and> snd (CheckStateDiffs
          (reference_world (cidr_tree ''10.0.0.0/16'') (cidr_tree ''10.1.0.0/16'')
             (Some [(''infrastructure'', [[PKey ''spec'', PKey ''network'']]),
                    (''distribution'', [[PKey ''spec'']])]))
          reference_phase) =
     Some (ErrImmutable
       [\<lparr>VPath = [Key ''spec'', Key ''network'', Key ''cidr''],
         VOld = Some (VStr ''10.0.0.0/16''), VNew = Some (VStr ''10.1.0.0/16'')\<rparr>,
        \<lparr>VPath = [Key ''spec'', Key ''network'', Key ''cidr''],
         VOld = Some (VStr ''10.0.0.0/16''), VNew = Some (VStr ''10.1.0.0/16'')\<rparr>])
   \<and> snd (Exec
          (reference_world (cidr_tree ''10.0.0.0/16'') (cidr_tree ''10.1.0.0/16'')
             (Some [(''infrastructure'', [[PKey ''spec'', PKey ''network'']]),
                    (''distribution'', [[PKey ''spec'']])]))
          reference_phase) =
     Some (Wrapped ''error checking state diffs'' (ErrImmutable
       [\<lparr>VPath = [Key ''spec'', Key ''network'', Key ''cidr''],
         VOld = Some (VStr ''10.0.0.0/16''), VNew = Some (VStr ''10.1.0.0/16'')\<rparr>,
        \<lparr>VPath = [Key ''spec'', Key ''network'', Key ''cidr''],
         VOld = Some (VStr ''10.0.0.0/16''), VNew = Some (VStr ''10.1.0.0/16'')\<rparr>]))"
proof -
  let ?rules = "Some [(''infrastructure'', [[PKey ''spec'', PKey ''network'']]),
                      (''distribution'', [[PKey ''spec'']])]"
  let ?w = "reference_world (cidr_tree ''10.0.0.0/16'') (cidr_tree ''10.1.0.0/16'') ?rules"
  let ?d = "[changed [Key ''spec'', Key ''network'', Key ''cidr''] (VStr ''10.0.0.0/16'') (VStr ''10.1.0.0/16'')]"
  have h1: "stateStore_GetConfig ?w = Inr ''stored''"
    by (simp add: reference_world_def)
  have h2: "yamlx_UnmarshalV3 ?w ''stored'' = Inr (cidr_tree ''10.0.0.0/16'')"
    by (simp add: reference_world_def)
  have h3: "yamlx_FromFileV3 ?w (furyctlConfPath reference_phase) = Inr (cidr_tree ''10.1.0.0/16'')"
    by (simp add: reference_world_def)
  have h4: "diff_GenerateDiff ?w (VMap (cidr_tree ''10.0.0.0/16'')) (VMap (cidr_tree ''10.1.0.0/16'')) = Inr ?d"
    by (simp add: reference_world_def GenerateDiff_def cidr_tree_def union_keys_def)
  have h5: "rules_NewEKSClusterRulesBuilder ?w (distroPath reference_phase)
              = Inr \<lparr>Immutables = the ?rules\<rparr>"
    by (simp add: reference_world_def NewRulesBuilder_def)
  have e: "phase_CreateFolder ?w = None \<and> snd (copyFromTemplate ?w reference_phase) = None
         \<and> phase_CreateFolderStructure ?w = None \<and> tfRunner_Init ?w = None
         \<and> tfRunner_State ?w [''show'', ''data.aws_eks_cluster.fury'']
             = Inr ''data.aws_eks_cluster.fury''
         \<and> kubeRunner_Version ?w = Inr ''v1.25''"
    by (simp add: reference_copyFromTemplate) (simp add: reference_world_def)
  show ?thesis
    using CheckStateDiffs_aggregates [OF h1 h2 h3 h4 h5 refl,
        of "''data.aws_eks_cluster.fury''" "''v1.25''"] e
    by (simp add: reference_world_def reference_phase_def GetImmutables_def changed_def
        violation_of_def)
qed

text \<open>
  C3: when the folder, the templates and the terraform backend are set up and the state
  call \<^verbatim>\<open>tfRunner.State("show", "data.aws_eks_cluster.fury")\<close> returns an error (the
  remote state shows no cluster), \<^verbatim>\<open>Exec\<close> returns nil, the state call is its last
  call, and neither the reachability check, nor the diff engine, nor the immutability
  checker is called.
\<close>

theorem Exec_first_apply_fast_path:
  assumes "phase_CreateFolder w = None"
    and "snd (copyFromTemplate w p) = None"
    and "phase_CreateFolderStructure w = None"
    and "tfRunner_Init w = None"
    and "tfRunner_State w [''show'', ''data.aws_eks_cluster.fury''] = Inl err"
  shows "snd (Exec w p) = None
     \<and> fst (Exec w p) = CallCreateFolder # fst (copyFromTemplate w p)
          @ [CallCreateFolderStructure, CallTfInit,
             CallTfState [''show'', ''data.aws_eks_cluster.fury'']]
     \<and> CallKubeVersion \<notin> set (fst (Exec w p))
     \<and> (\<forall>stored incoming. CallGenerateDiff stored incoming \<notin> set (fst (Exec w p)))
     \<and> (\<forall>diffs pats. CallAssertImmutableViolations diffs pats \<notin> set (fst (Exec w p)))"
  using assms by (simp add: Exec_def after_def copyFromTemplate_no_checks)

theorem Exec_first_apply_fast_path_witness:
  "snd (Exec (state_error_world (ErrorString ''No instance found for the given address!''))
          reference_phase) = None
   \<and> fst (Exec (state_error_world (ErrorString ''No instance found for the given address!''))
          reference_phase) =
       [CallCreateFolder, CallMkdirTemp, CallFsSub,
        CallCopyRecursive ''/tmp/furyctl-kube-configs-1'',
        CallCopyFromTemplate ''/tmp/furyctl-kube-configs-1'' ''.furyctl/preflight/terraform'',
        CallRemoveAll ''/tmp/furyctl-kube-configs-1'',
        CallCreateFolderStructure, CallTfInit,
        CallTfState [''show'', ''data.aws_eks_cluster.fury'']]"
proof -
  let ?w = "state_error_world (ErrorString ''No instance found for the given address!'')"
  have h1: "phase_CreateFolder ?w = None" by (simp add: world_defs)
  have h2: "snd (copyFromTemplate ?w reference_phase) = None"
    by (simp add: state_error_copyFromTemplate)
  have h3: "phase_CreateFolderStructure ?w = None" by (simp add: world_defs)
  have h4: "tfRunner_Init ?w = None" by (simp add: world_defs)
  have h5: "tfRunner_State ?w [''show'', ''data.aws_eks_cluster.fury'']
              = Inl (ErrorString ''No instance found for the given address!'')"
    by (simp add: world_defs)
  show ?thesis
    using Exec_first_apply_fast_path [OF h1 h2 h3 h4 h5]
    by (simp add: state_error_copyFromTemplate)
qed

text \<open>
  C4 (the claim as stated), where the rule schema is absent and everything else
  succeeds: the rules builder fails and \<^verbatim>\<open>CheckStateDiffs\<close> returns its error, but
  the diff has been generated before the rules builder is built; the call of the diff
  engine is in the trace.
\<close>

theorem CheckStateDiffs_schema_absent_counterexample:
  "rules_NewEKSClusterRulesBuilder schema_absent_world (distroPath reference_phase)
     = Inl (ErrorString ''rule schema is missing'')
   \<and> CheckStateDiffs schema_absent_world reference_phase =
       ([CallGetConfig, CallUnmarshalV3 ''stored'', CallFromFileV3 ''furyctl.yaml'',
         CallGenerateDiff (VMap (cidr_tree ''10.0.0.0/16'')) (VMap (cidr_tree ''10.1.0.0/16'')),
         CallNewRulesBuilder ''.furyctl/distribution''],
        Some (Wrapped ''error while creating rules builder''
               (ErrorString ''rule schema is missing'')))
   \<and> CallGenerateDiff (VMap (cidr_tree ''10.0.0.0/16'')) (VMap (cidr_tree ''10.1.0.0/16''))
       \<in> set (fst (CheckStateDiffs schema_absent_world reference_phase))"
  by (simp add: CheckStateDiffs_def after_def world_defs NewRulesBuilder_def GenerateDiff_def
      cidr_tree_def union_keys_def)

text \<open>
  C4 (amended): a load error aborts \<^verbatim>\<open>CheckStateDiffs\<close> at the failing call, with
  every call before it made once and no call after it: an unreadable stored
  configuration before anything is decoded, an undecodable stored configuration before
  the configuration file is read, an unreadable or undecodable configuration file before
  the diff is generated, and a rules builder that cannot be built after the diff is
  generated and before any immutability check. A missing rule schema makes the rules
  builder fail. \<^verbatim>\<open>Exec\<close> returns the error of \<^verbatim>\<open>CheckStateDiffs\<close>, wrapped, as its
  own.
\<close>

theorem CheckStateDiffs_load_errors_abort:
  "(stateStore_GetConfig w = Inl err \<longrightarrow>
      CheckStateDiffs w p =
        ([CallGetConfig], Some (Wrapped ''error while getting current cluster config'' err)))
   \<and> (stateStore_GetConfig w = Inr storedCfgStr \<and> yamlx_UnmarshalV3 w storedCfgStr = Inl err \<longrightarrow>
      CheckStateDiffs w p =
        ([CallGetConfig, CallUnmarshalV3 storedCfgStr],
         Some (Wrapped ''error while unmarshalling config file'' err)))
   \<and> (stateStore_GetConfig w = Inr storedCfgStr \<and> yamlx_UnmarshalV3 w storedCfgStr = Inr storedCfg
        \<and> yamlx_FromFileV3 w (furyctlConfPath p) = Inl err \<longrightarrow>
      CheckStateDiffs w p =
        ([CallGetConfig, CallUnmarshalV3 storedCfgStr, CallFromFileV3 (furyctlConfPath p)],
         Some (Wrapped ''error while reading config file'' err)))
   \<and> (stateStore_GetConfig w = Inr storedCfgStr \<and> yamlx_UnmarshalV3 w storedCfgStr = Inr storedCfg
        \<and> yamlx_FromFileV3 w (furyctlConfPath p) = Inr newCfg
        \<and> diff_GenerateDiff w (VMap storedCfg) (VMap newCfg) = Inr diffs
        \<and> rules_NewEKSClusterRulesBuilder w (distroPath p) = Inl err \<longrightarrow>
      CheckStateDiffs w p =
        ([CallGetConfig, CallUnmarshalV3 storedCfgStr, CallFromFileV3 (furyctlConfPath p),
          CallGenerateDiff (VMap storedCfg) (VMap newCfg), CallNewRulesBuilder (distroPath p)],
         Some (Wrapped ''error while creating rules builder'' err)))
   \<and> (readSchema (distroPath p) = None \<longrightarrow>
      NewRulesBuilder readSchema parseSchema (distroPath p)
        = Inl (ErrorString ''rule schema is missing''))
   \<and> (phase_CreateFolder w = None \<and> snd (copyFromTemplate w p) = None
        \<and> phase_CreateFolderStructure w = None \<and> tfRunner_Init w = None
        \<and> tfRunner_State w [''show'', ''data.aws_eks_cluster.fury''] = Inr shown
        \<and> kubeRunner_Version w = Inr version
        \<and> snd (CheckStateDiffs w p) = Some err \<longrightarrow>
      Exec w p =
        (CallCreateFolder # fst (copyFromTemplate w p)
           @ [CallCreateFolderStructure, CallTfInit,
              CallTfState [''show'', ''data.aws_eks_cluster.fury''], CallKubeVersion]
           @ fst (CheckStateDiffs w p),
         Some (Wrapped ''error checking state diffs'' err)))"
  by (simp add: CheckStateDiffs_def Exec_def after_def NewRulesBuilder_def)

theorem CheckStateDiffs_load_errors_abort_witness:
  "CheckStateDiffs schema_absent_world reference_phase =
       ([CallGetConfig, CallUnmarshalV3 ''stored'', CallFromFileV3 ''furyctl.yaml'',
         CallGenerateDiff (VMap (cidr_tree ''10.0.0.0/16'')) (VMap (cidr_tree ''10.1.0.0/16'')),
         CallNewRulesBuilder ''.furyctl/distribution''],
        Some (Wrapped ''error while creating rules builder''
               (ErrorString ''rule schema is missing'')))
   \<and> CheckStateDiffs (schema_absent_world\<lparr>stateStore_GetConfig := Inl (ErrorString ''no such key'')\<rparr>)
        reference_phase =
       ([CallGetConfig],
        Some (Wrapped ''error while getting current cluster config'' (ErrorString ''no such key'')))
   \<and> snd (Exec schema_absent_world reference_phase) =
       Some (Wrapped ''error checking state diffs''
              (Wrapped ''error while creating rules builder''
                (ErrorString ''rule schema is missing'')))"
proof -
  let ?w = schema_absent_world
  let ?p = reference_phase
  let ?d = "[changed [Key ''spec'', Key ''network'', Key ''cidr'']
               (VStr ''10.0.0.0/16'') (VStr ''10.1.0.0/16'')]"
  have g: "stateStore_GetConfig ?w = Inr ''stored''
         \<and> yamlx_UnmarshalV3 ?w ''stored'' = Inr (cidr_tree ''10.0.0.0/16'')
         \<and> yamlx_FromFileV3 ?w (furyctlConfPath ?p) = Inr (cidr_tree ''10.1.0.0/16'')"
    by (simp add: world_defs)
  have d: "diff_GenerateDiff ?w (VMap (cidr_tree ''10.0.0.0/16'')) (VMap (cidr_tree ''10.1.0.0/16''))
             = Inr ?d"
    by (simp add: world_defs GenerateDiff_def cidr_tree_def union_keys_def)
  have a: "(\<lambda>d::string. None::string option) (distroPath ?p) = None" by simp
  have r: "rules_NewEKSClusterRulesBuilder ?w (distroPath ?p)
             = NewRulesBuilder (\<lambda>d. None) (\<lambda>text. None) (distroPath ?p)"
    by (simp add: world_defs)
  have e: "phase_CreateFolder ?w = None \<and> snd (copyFromTemplate ?w ?p) = None
         \<and> phase_CreateFolderStructure ?w = None \<and> tfRunner_Init ?w = None
         \<and> tfRunner_State ?w [''show'', ''data.aws_eks_cluster.fury''] = Inr ''data.aws_eks_cluster.fury''
         \<and> kubeRunner_Version ?w = Inr ''v1.25''"
    by (simp add: schema_absent_world_def reference_copyFromTemplate) (simp add: world_defs)
  have b: "stateStore_GetConfig (?w\<lparr>stateStore_GetConfig := Inl (ErrorString ''no such key'')\<rparr>)
             = Inl (ErrorString ''no such key'')"
    by simp
  note t = CheckStateDiffs_load_errors_abort
  from t [where w = ?w and p = ?p and storedCfgStr = "''stored''"
           and storedCfg = "cidr_tree ''10.0.0.0/16''" and newCfg = "cidr_tree ''10.1.0.0/16''"
           and diffs = ?d and readSchema = "\<lambda>d. None" and parseSchema = "\<lambda>text. None"
           and err = "ErrorString ''rule schema is missing''"] g d a r
  have c1: "CheckStateDiffs ?w ?p =
       ([CallGetConfig, CallUnmarshalV3 ''stored'', CallFromFileV3 (furyctlConfPath ?p),
         CallGenerateDiff (VMap (cidr_tree ''10.0.0.0/16'')) (VMap (cidr_tree ''10.1.0.0/16'')),
         CallNewRulesBuilder (distroPath ?p)],
        Some (Wrapped ''error while creating rules builder''
               (ErrorString ''rule schema is missing'')))"
    by simp
  from t [where w = "?w\<lparr>stateStore_GetConfig := Inl (ErrorString ''no such key'')\<rparr>"
           and err = "ErrorString ''no such key''" and p = ?p] b
  have c2: "CheckStateDiffs (?w\<lparr>stateStore_GetConfig := Inl (ErrorString ''no such key'')\<rparr>) ?p =
       ([CallGetConfig],
        Some (Wrapped ''error while getting current cluster config'' (ErrorString ''no such key'')))"
    by simp
  from t [where w = ?w and p = ?p
           and err = "Wrapped ''error while creating rules builder''
                        (ErrorString ''rule schema is missing'')"
           and shown = "''data.aws_eks_cluster.fury''" and version = "''v1.25''"] e c1
  have c3: "snd (Exec ?w ?p) =
       Some (Wrapped ''error checking state diffs''
              (Wrapped ''error while creating rules builder''
                (ErrorString ''rule schema is missing'')))"
    by simp
  from c1 c2 c3 show ?thesis by (simp add: reference_phase_def)
qed

text \<open>
  C5: when the remote state shows the cluster and the reachability check
  \<^verbatim>\<open>kubeRunner.Version()\<close> fails, \<^verbatim>\<open>Exec\<close> returns the wrapped error, the
  reachability check is its last call, and neither the state store, nor the diff engine,
  nor the immutability checker is called.
\<close>

theorem Exec_unreachable_cluster:
  assumes "phase_CreateFolder w = None"
    and "snd (copyFromTemplate w p) = None"
    and "phase_CreateFolderStructure w = None"
    and "tfRunner_Init w = None"
    and "tfRunner_State w [''show'', ''data.aws_eks_cluster.fury''] = Inr shown"
    and "kubeRunner_Version w = Inl err"
  shows "snd (Exec w p) =
           Some (Wrapped ''cluster is unreachable, make sure you have access to the cluster'' err)
     \<and> fst (Exec w p) = CallCreateFolder # fst (copyFromTemplate w p)
          @ [CallCreateFolderStructure, CallTfInit,
             CallTfState [''show'', ''data.aws_eks_cluster.fury''], CallKubeVersion]
     \<and> CallGetConfig \<notin> set (fst (Exec w p))
     \<and> (\<forall>stored incoming. CallGenerateDiff stored incoming \<notin> set (fst (Exec w p)))
     \<and> (\<forall>diffs pats. CallAssertImmutableViolations diffs pats \<notin> set (fst (Exec w p)))"
  using assms by (simp add: Exec_def after_def copyFromTemplate_no_checks)

theorem Exec_unreachable_cluster_witness:
  "snd (Exec unreachable_world reference_phase) =
     Some (Wrapped ''cluster is unreachable, make sure you have access to the cluster''
            (ErrorString ''connection refused''))
   \<and> fst (Exec unreachable_world reference_phase) =
       [CallCreateFolder, CallMkdirTemp, CallFsSub,
        CallCopyRecursive ''/tmp/furyctl-kube-configs-1'',
        CallCopyFromTemplate ''/tmp/furyctl-kube-configs-1'' ''.furyctl/preflight/terraform'',
        CallRemoveAll ''/tmp/furyctl-kube-configs-1'',
        CallCreateFolderStructure, CallTfInit,
        CallTfState [''show'', ''data.aws_eks_cluster.fury''], CallKubeVersion]"
proof -
  let ?w = unreachable_world
  have h1: "phase_CreateFolder ?w = None" by (simp add: world_defs)
  have h2: "snd (copyFromTemplate ?w reference_phase) = None"
    by (simp add: unreachable_copyFromTemplate)
  have h3: "phase_CreateFolderStructure ?w = None" by (simp add: world_defs)
  have h4: "tfRunner_Init ?w = None" by (simp add: world_defs)
  have h5: "tfRunner_State ?w [''show'', ''data.aws_eks_cluster.fury'']
              = Inr ''data.aws_eks_cluster.fury''"
    by (simp add: world_defs)
  have h6: "kubeRunner_Version ?w = Inl (ErrorString ''connection refused'')"
    by (simp add: world_defs)
  show ?thesis
    using Exec_unreachable_cluster [OF h1 h2 h3 h4 h5 h6]
    by (simp add: unreachable_copyFromTemplate)
qed

text \<open>
  C9: whatever error the state call returns, \<^verbatim>\<open>Exec\<close> behaves the same: replacing
  the state call by one that fails with any other error changes neither the trace nor
  the result. When the steps before the state call succeed the result is nil and the
  state call is the last call; in no case is the reachability check, the state store,
  the diff engine or the immutability checker called.
\<close>

theorem Exec_state_error_never_inspected:
  assumes "tfRunner_State w [''show'', ''data.aws_eks_cluster.fury''] = Inl err"
    and "f [''show'', ''data.aws_eks_cluster.fury''] = Inl err'"
  shows "Exec (w\<lparr>tfRunner_State := f\<rparr>) p = Exec w p
     \<and> (phase_CreateFolder w = None \<and> snd (copyFromTemplate w p) = None
          \<and> phase_CreateFolderStructure w = None \<and> tfRunner_Init w = None
        \<longrightarrow> snd (Exec w p) = None
            \<and> last (fst (Exec w p)) = CallTfState [''show'', ''data.aws_eks_cluster.fury''])
     \<and> CallKubeVersion \<notin> set (fst (Exec w p))
     \<and> CallGetConfig \<notin> set (fst (Exec w p))
     \<and> (\<forall>stored incoming. CallGenerateDiff stored incoming \<notin> set (fst (Exec w p)))
     \<and> (\<forall>diffs pats. CallAssertImmutableViolations diffs pats \<notin> set (fst (Exec w p)))"
  using assms
  by (auto simp: Exec_def after_def copyFromTemplate_no_checks copyFromTemplate_State_update
      CheckStateDiffs_State_update split: option.splits)

theorem Exec_state_error_never_inspected_witness:
  "Exec ((state_error_world (ErrorString ''timeout while reading the remote state''))
           \<lparr>tfRunner_State := (\<lambda>args. Inl (ErrorString ''No instance found for the given address!''))\<rparr>)
        reference_phase
     = Exec (state_error_world (ErrorString ''timeout while reading the remote state''))
         reference_phase
   \<and> snd (Exec (state_error_world (ErrorString ''timeout while reading the remote state''))
         reference_phase) = None
   \<and> last (fst (Exec (state_error_world (ErrorString ''timeout while reading the remote state''))
         reference_phase)) = CallTfState [''show'', ''data.aws_eks_cluster.fury'']"
proof -
  let ?w = "state_error_world (ErrorString ''timeout while reading the remote state'')"
  have h1: "tfRunner_State ?w [''show'', ''data.aws_eks_cluster.fury'']
              = Inl (ErrorString ''timeout while reading the remote state'')"
    by (simp add: world_defs)
  have h2: "(\<lambda>args::string list. (Inl (ErrorString ''No instance found for the given address!'')
              :: error + string)) [''show'', ''data.aws_eks_cluster.fury'']
              = Inl (ErrorString ''No instance found for the given address!'')"
    by simp
  have r: "phase_CreateFolder ?w = None \<and> snd (copyFromTemplate ?w reference_phase) = None
          \<and> phase_CreateFolderStructure ?w = None \<and> tfRunner_Init ?w = None"
    by (simp add: state_error_copyFromTemplate) (simp add: world_defs)
  show ?thesis
    using Exec_state_error_never_inspected [OF h1 h2, of reference_phase] r
    by simp
qed

section \<open>Properties of the configuration parser\<close>

lemma assert_map_panics:
  "\<not> is_mapping s \<Longrightarrow>
     assert_map s = Panics ''interface conversion: interface {} is not map[interface {}]interface {}''"
  by (cases s rule: is_mapping.cases) simp_all

text \<open>
  C10: whenever the file is read and decoded, the kind is "Cluster" or "Bootstrap", and
  the decoded spec is not a mapping (absent, a scalar or a sequence), \<^verbatim>\<open>Parse\<close>
  panics at the unchecked type assertion of the parser it dispatches to; it returns
  neither a configuration nor an error. Such inputs exist: a document with only
  \<open>kind: Cluster\<close>, and a Bootstrap document whose spec is a string.
\<close>

theorem Parse_panics_on_missing_spec:
  assumes "ReadFile lib path = Inr content"
    and "Unmarshal lib content = Inr baseConfig"
    and "Kind baseConfig = ''Cluster'' \<or> Kind baseConfig = ''Bootstrap''"
    and "\<not> is_mapping (Spec baseConfig)"
  shows "Parse lib path =
           Panics ''interface conversion: interface {} is not map[interface {}]interface {}''
     \<and> (\<forall>r. Parse lib path \<noteq> Returns r)"
  using assms
  by (auto simp: Parse_def finish_def clusterParser_def bootstrapParser_def assert_map_panics)

theorem Parse_panics_on_missing_spec_witness:
  "Parse (specless_lib ''Cluster'' DNil) ''furyctl.yml'' =
     Panics ''interface conversion: interface {} is not map[interface {}]interface {}''
   \<and> Parse (specless_lib ''Bootstrap'' (DString ''aws'')) ''furyctl.yml'' =
     Panics ''interface conversion: interface {} is not map[interface {}]interface {}''"
proof -
  have c: "ReadFile (specless_lib ''Cluster'' DNil) ''furyctl.yml'' = Inr ''kind: Cluster''"
    "Unmarshal (specless_lib ''Cluster'' DNil) ''kind: Cluster''
       = Inr (specless_configuration ''Cluster'' DNil)"
    "Kind (specless_configuration ''Cluster'' DNil) = ''Cluster''
       \<or> Kind (specless_configuration ''Cluster'' DNil) = ''Bootstrap''"
    "\<not> is_mapping (Spec (specless_configuration ''Cluster'' DNil))"
    by (simp_all add: specless_lib_def specless_configuration_def)
  have b: "ReadFile (specless_lib ''Bootstrap'' (DString ''aws'')) ''furyctl.yml''
       = Inr ''kind: Bootstrap''"
    "Unmarshal (specless_lib ''Bootstrap'' (DString ''aws'')) ''kind: Bootstrap''
       = Inr (specless_configuration ''Bootstrap'' (DString ''aws''))"
    "Kind (specless_configuration ''Bootstrap'' (DString ''aws'')) = ''Cluster''
       \<or> Kind (specless_configuration ''Bootstrap'' (DString ''aws'')) = ''Bootstrap''"
    "\<not> is_mapping (Spec (specless_configuration ''Bootstrap'' (DString ''aws'')))"
    by (simp_all add: specless_lib_def specless_configuration_def)
  from Parse_panics_on_missing_spec [OF c] Parse_panics_on_missing_spec [OF b]
  show ?thesis by blast
qed

end
